theory Spec2Isabelle
  imports Main
begin

section \<open>Python values and exceptions\<close>

text \<open>
  The script \<^verbatim>\<open>dock_variants.py\<close> is Python 2: \<^verbatim>\<open>/\<close> on integers is floor
  division and \<^verbatim>\<open>%\<close> takes the sign of the divisor, which is what \<open>div\<close> and
  \<open>mod\<close> on \<open>int\<close> do for a positive divisor. Assertions are enabled (the interpreter
  runs without \<^verbatim>\<open>-O\<close>).

  An exception is a value of type \<open>error\<close>. The constructors say where the exception
  comes from: \<open>External\<close> wraps an exception raised inside an external call (the
  simulation toolkit, the operating system, the module \<^verbatim>\<open>results_csv\<close>) that the
  script lets through; the others are raised by a statement of the script itself.
\<close>

datatype 'e error =
    AssertionError
  | NameError string
  | TypeError
  | IndexError
  | UnboundLocalError string
  | Raised string
  | External 'e

definition is_external :: "'e error \<Rightarrow> bool" where
  "is_external e = (case e of External _ \<Rightarrow> True | _ \<Rightarrow> False)"

text \<open>Indexing a sequence: a negative index counts from the end, out of range raises.\<close>

definition py_index :: "'a list \<Rightarrow> int \<Rightarrow> 'e error + 'a" where
  "py_index xs i =
     (if 0 \<le> i \<and> i < int (length xs) then Inr (xs ! nat i)
      else if i < 0 \<and> - int (length xs) \<le> i then Inr (xs ! nat (int (length xs) + i))
      else Inl IndexError)"

text \<open>
  The values an \<^verbatim>\<open>argparse\<close> switch can have here, and their truth value: a string is
  true when it is not empty.
\<close>

datatype pyval = PyBool bool | PyStr string

definition truthy :: "pyval \<Rightarrow> bool" where
  "truthy v = (case v of PyBool b \<Rightarrow> b | PyStr s \<Rightarrow> s \<noteq> [])"

text \<open>
  Python 2 orders \<^verbatim>\<open>None\<close> below every integer; \<open>None\<close> stands for an option that
  was not given on the command line.
\<close>

fun py_le :: "int option \<Rightarrow> int option \<Rightarrow> bool" where
  "py_le None _ = True"
| "py_le (Some a) None = False"
| "py_le (Some a) (Some b) = (a \<le> b)"

text \<open>\<^verbatim>\<open>range(a, b)\<close> of Python 2: the list of the integers from \<open>a\<close> up to \<open>b - 1\<close>.\<close>

definition py_range :: "int \<Rightarrow> int \<Rightarrow> int list" where
  "py_range a b = [a..b - 1]"

section \<open>The world the script runs in\<close>

text \<open>
  Calls that leave the script, in the order they are made. The external state \<open>'x\<close>
  (random generator and options of the toolkit, clock, directories) is opaque; the text
  files the script appends to and its standard output are explicit.
\<close>

datatype event =
    Time
  | PoseFromPdb string
  | MakeProtocol
  | DnaScore
  | FaScore
  | DockingApply
  | CallException
  | OpenAppend string
  | MakeDirs string
  | Strftime
  | RosettaInit
  | ResultsToCsv string

record 'x world =
  ext :: 'x
  files :: "string \<rightharpoonup> string"
  stdout :: "string list"
  trace :: "event list"

text \<open>What \<^verbatim>\<open>raise v\<close> is given: an exception instance, or an object that is none.\<close>

datatype pyobj = ExceptionInstance | OtherObject

text \<open>
  The external functions. Each takes the external state and returns its result, or the
  exception it raised, with the new external state.
  \<^item> \<open>time\<close>: \<^verbatim>\<open>time()\<close>; \<open>fsub\<close>: subtraction of floats; \<open>fixed3\<close>: the text of a float
    with three decimals, \<^verbatim>\<open>'%.3f' % v\<close>;
  \<^item> \<open>os_path_join\<close>, \<open>os_sep\<close>, \<open>os_path_exists\<close>, \<open>os_makedirs\<close>, \<open>os_open_append\<close>
    (\<^verbatim>\<open>open(path, 'a')\<close>), \<open>strftime_now\<close>
    (\<^verbatim>\<open>datetime.datetime.now().strftime("%Y-%m-%d %I.%M.%S%p")\<close>);
  \<^item> \<open>pose_from_pdb\<close>, \<open>rosetta_init\<close> (\<^verbatim>\<open>init(extra_options="-mute all")\<close>) of the toolkit;
  \<^item> \<open>make_protocol\<close>: lines 48 to 56 of \<^verbatim>\<open>dock_simple\<close>, which build the two score
    functions and the docking protocol; \<open>dna_score\<close>, \<open>fa_score\<close> and
    \<open>docking_apply\<close> are the objects built there, applied to a pose;
  \<^item> \<open>exception_global\<close>: what the global name \<^verbatim>\<open>exception\<close> is bound to after
    \<^verbatim>\<open>from rosetta import *\<close>: nothing, or an object whose call with the message gives
    an object or raises;
  \<^item> \<open>results_to_csv\<close> of the module \<^verbatim>\<open>results_csv\<close>, which reads and writes files.
\<close>

record ('x, 'e, 'pose, 'f) env =
  time :: "'x \<Rightarrow> ('e + 'f) \<times> 'x"
  fsub :: "'f \<Rightarrow> 'f \<Rightarrow> 'f"
  fixed3 :: "'f \<Rightarrow> string"
  os_path_join :: "string list \<Rightarrow> string"
  os_sep :: string
  os_path_exists :: "string \<Rightarrow> 'x \<Rightarrow> bool"
  os_makedirs :: "string \<Rightarrow> 'x \<Rightarrow> ('e + unit) \<times> 'x"
  os_open_append :: "string \<Rightarrow> 'x \<Rightarrow> ('e + unit) \<times> 'x"
  strftime_now :: "'x \<Rightarrow> ('e + string) \<times> 'x"
  pose_from_pdb :: "string \<Rightarrow> 'x \<Rightarrow> ('e + 'pose) \<times> 'x"
  rosetta_init :: "'x \<Rightarrow> ('e + unit) \<times> 'x"
  make_protocol :: "'x \<Rightarrow> ('e + unit) \<times> 'x"
  dna_score :: "'pose \<Rightarrow> 'x \<Rightarrow> ('e + 'f) \<times> 'x"
  fa_score :: "'pose \<Rightarrow> 'x \<Rightarrow> ('e + 'f) \<times> 'x"
  docking_apply :: "'pose \<Rightarrow> 'x \<Rightarrow> ('e + 'pose) \<times> 'x"
  exception_global :: "(string \<Rightarrow> 'x \<Rightarrow> ('e + pyobj) \<times> 'x) option"
  results_to_csv :: "string \<Rightarrow> (string \<rightharpoonup> string) \<Rightarrow> 'x \<Rightarrow> ('e + unit) \<times> (string \<rightharpoonup> string) \<times> 'x"

text \<open>
  A statement takes the world and gives a result or an exception, with the world as it
  is then: what was written before an exception stays written.
\<close>

type_synonym ('a, 'x, 'e) prog = "'x world \<Rightarrow> ('e error + 'a) \<times> 'x world"

definition ret :: "'a \<Rightarrow> ('a, 'x, 'e) prog" where
  "ret a w = (Inr a, w)"

definition raise :: "'e error \<Rightarrow> ('a, 'x, 'e) prog" where
  "raise e w = (Inl e, w)"

definition seq :: "('a, 'x, 'e) prog \<Rightarrow> ('a \<Rightarrow> ('b, 'x, 'e) prog) \<Rightarrow> ('b, 'x, 'e) prog" where
  "seq m k w = (case m w of (Inl e, w') \<Rightarrow> (Inl e, w') | (Inr a, w') \<Rightarrow> k a w')"

definition lift :: "'e error + 'a \<Rightarrow> ('a, 'x, 'e) prog" where
  "lift r w = (r, w)"

text \<open>An external call: it is recorded, runs on the external state, and its exception passes through.\<close>

definition call :: "event \<Rightarrow> ('x \<Rightarrow> ('e + 'a) \<times> 'x) \<Rightarrow> ('a, 'x, 'e) prog" where
  "call ev f w =
     (case f (ext w) of
        (Inl e, x) \<Rightarrow> (Inl (External e), w\<lparr>ext := x, trace := trace w @ [ev]\<rparr>)
      | (Inr a, x) \<Rightarrow> (Inr a, w\<lparr>ext := x, trace := trace w @ [ev]\<rparr>))"

definition call_csv :: "('x, 'e, 'pose, 'f) env \<Rightarrow> string \<Rightarrow> (unit, 'x, 'e) prog" where
  "call_csv env path w =
     (case results_to_csv env path (files w) (ext w) of
        (Inl e, fs, x) \<Rightarrow>
          (Inl (External e), w\<lparr>ext := x, files := fs, trace := trace w @ [ResultsToCsv path]\<rparr>)
      | (Inr u, fs, x) \<Rightarrow>
          (Inr (), w\<lparr>ext := x, files := fs, trace := trace w @ [ResultsToCsv path]\<rparr>))"

definition print :: "string \<Rightarrow> (unit, 'x, 'e) prog" where
  "print s w = (Inr (), w\<lparr>stdout := stdout w @ [s]\<rparr>)"

text \<open>The content of a file; a file that does not exist has none.\<close>

definition content :: "'x world \<Rightarrow> string \<Rightarrow> string" where
  "content w path = (case files w path of None \<Rightarrow> [] | Some c \<Rightarrow> c)"

text \<open>\<^verbatim>\<open>f = open(path, 'a')\<close>: the file is created when it does not exist and keeps its content.\<close>

definition open_append :: "('x, 'e, 'pose, 'f) env \<Rightarrow> string \<Rightarrow> (unit, 'x, 'e) prog" where
  "open_append env path =
     seq (call (OpenAppend path) (os_open_append env path))
       (\<lambda>_ w. (Inr (), w\<lparr>files := (files w)(path \<mapsto> content w path)\<rparr>))"

text \<open>\<^verbatim>\<open>f.write(s)\<close> on a file opened for appending.\<close>

definition fwrite :: "string \<Rightarrow> string \<Rightarrow> (unit, 'x, 'e) prog" where
  "fwrite path s w = (Inr (), w\<lparr>files := (files w)(path \<mapsto> content w path @ s)\<rparr>)"

section \<open>PAM variants\<close>

definition dna_nts :: string where
  "dna_nts = ''acgt''"

definition programs :: "string list" where
  "programs = [''Chimera'', ''3DNA'']"

text \<open>
  Line 91: \<^verbatim>\<open>variant = dna_nts[i / 16] + dna_nts[i / 4 % 4] + dna_nts[i % 4]\<close>,
  the three subscripts evaluated from left to right.
\<close>

definition variant_of :: "int \<Rightarrow> 'e error + string" where
  "variant_of i =
     (case py_index dna_nts (i div 16) of
        Inl e \<Rightarrow> Inl e
      | Inr a \<Rightarrow>
          (case py_index dna_nts (i div 4 mod 4) of
             Inl e \<Rightarrow> Inl e
           | Inr b \<Rightarrow>
               (case py_index dna_nts (i mod 4) of
                  Inl e \<Rightarrow> Inl e
                | Inr c \<Rightarrow> Inr [a, b, c])))"

text \<open>The position of a nucleotide in \<open>dna_nts\<close>, and the index a variant string stands for.\<close>

definition nt_code :: "char \<Rightarrow> int" where
  "nt_code x =
     (if x = CHR ''a'' then 0 else if x = CHR ''c'' then 1 else if x = CHR ''g'' then 2 else 3)"

definition variant_index :: "string \<Rightarrow> int" where
  "variant_index s = 16 * nt_code (s ! 0) + 4 * nt_code (s ! 1) + nt_code (s ! 2)"

section \<open>Writing the scores\<close>

definition newline :: char where
  "newline = CHR 0x0A"

text \<open>\<^verbatim>\<open>'%8.3f' % v\<close>: three decimals, padded with spaces on the left to eight characters.\<close>

definition fmt_8_3f :: "('x, 'e, 'pose, 'f) env \<Rightarrow> 'f \<Rightarrow> string" where
  "fmt_8_3f env v = replicate (8 - length (fixed3 env v)) CHR '' '' @ fixed3 env v"

text \<open>
  \<^verbatim>\<open>write_dock_stats\<close>, lines 16 to 32. Each \<^verbatim>\<open>dock_stats[k]\<close> is read when its line is
  formatted, after the lines before it are written.
\<close>

definition write_dock_stats ::
  "('x, 'e, 'pose, 'f) env \<Rightarrow> string \<Rightarrow> string \<Rightarrow> 'f list \<Rightarrow> 'f \<Rightarrow> (unit, 'x, 'e) prog" where
  "write_dock_stats env score_directory filename dock_stats time_diff =
     (let path = os_path_join env [score_directory, filename] in
      seq (open_append env path) (\<lambda>_.
      seq (lift (py_index dock_stats 0)) (\<lambda>v0.
      seq (fwrite path (''Initial DNA score: '' @ fmt_8_3f env v0 @ [newline])) (\<lambda>_.
      seq (lift (py_index dock_stats 1)) (\<lambda>v1.
      seq (fwrite path (''Final DNA Score: '' @ fmt_8_3f env v1 @ [newline])) (\<lambda>_.
      seq (lift (py_index dock_stats 2)) (\<lambda>v2.
      seq (fwrite path (''Initial FA score: '' @ fmt_8_3f env v2 @ [newline])) (\<lambda>_.
      seq (lift (py_index dock_stats 3)) (\<lambda>v3.
      seq (fwrite path (''Final FA score: '' @ fmt_8_3f env v3 @ [newline])) (\<lambda>_.
      fwrite path (''Total variant time: '' @ fmt_8_3f env time_diff @ [newline])))))))))))"

text \<open>The five lines of one report, as the specification lists them.\<close>

definition report :: "('x, 'e, 'pose, 'f) env \<Rightarrow> 'f list \<Rightarrow> 'f \<Rightarrow> string list" where
  "report env dock_stats time_diff =
     [''Initial DNA score: '' @ fmt_8_3f env (dock_stats ! 0),
      ''Final DNA Score: '' @ fmt_8_3f env (dock_stats ! 1),
      ''Initial FA score: '' @ fmt_8_3f env (dock_stats ! 2),
      ''Final FA score: '' @ fmt_8_3f env (dock_stats ! 3),
      ''Total variant time: '' @ fmt_8_3f env time_diff]"

definition unlines :: "string list \<Rightarrow> string" where
  "unlines ls = concat (map (\<lambda>l. l @ [newline]) ls)"

section \<open>Docking\<close>

text \<open>\<^verbatim>\<open>dock_simple\<close>, lines 35 to 65. \<^verbatim>\<open>docking.apply(pose)\<close> changes the pose in place.\<close>

definition dock_simple :: "('x, 'e, 'pose, 'f) env \<Rightarrow> 'pose \<Rightarrow> ('f list, 'x, 'e) prog" where
  "dock_simple env pose =
     seq (call MakeProtocol (make_protocol env)) (\<lambda>_.
     seq (call DnaScore (dna_score env pose)) (\<lambda>dna_init.
     seq (call FaScore (fa_score env pose)) (\<lambda>fa_init.
     seq (call DockingApply (docking_apply env pose)) (\<lambda>docked.
     seq (call DnaScore (dna_score env docked)) (\<lambda>dna_final.
     seq (call FaScore (fa_score env docked)) (\<lambda>fa_final.
     ret [dna_init, dna_final, fa_init, fa_final]))))))"

text \<open>
  \<^verbatim>\<open>dock_complex\<close>, line 75: \<^verbatim>\<open>raise exception("Complex docking not implemented")\<close>.
  The name \<^verbatim>\<open>exception\<close> is looked up, the object called, and the result raised;
  raising an object that is no exception is a \<^verbatim>\<open>TypeError\<close>.
\<close>

definition dock_complex :: "('x, 'e, 'pose, 'f) env \<Rightarrow> 'pose \<Rightarrow> ('f list, 'x, 'e) prog" where
  "dock_complex env pose =
     (case exception_global env of
        None \<Rightarrow> raise (NameError ''exception'')
      | Some f \<Rightarrow>
          seq (call CallException (f ''Complex docking not implemented'')) (\<lambda>obj.
            case obj of
              ExceptionInstance \<Rightarrow> raise (Raised ''Complex docking not implemented'')
            | OtherObject \<Rightarrow> raise TypeError))"

text \<open>
  The body of the inner loop of \<^verbatim>\<open>dock_variants\<close>, lines 93 to 106. The local variable
  \<^verbatim>\<open>dock_stats\<close> is \<open>None\<close> until it is assigned; it is assigned on the simple branch
  only, and reading it unassigned at line 105 raises. \<open>dc\<close> is the function called on the
  complex branch.
\<close>

definition dock_one ::
  "('pose \<Rightarrow> ('f list, 'x, 'e) prog) \<Rightarrow> ('x, 'e, 'pose, 'f) env \<Rightarrow> string \<Rightarrow> string \<Rightarrow> pyval \<Rightarrow>
     string \<Rightarrow> string \<Rightarrow> 'f list option \<Rightarrow> ('f list option, 'x, 'e) prog" where
  "dock_one dc env path_to_scores path_to_pdbs complex_docking_flag variant program dock_stats =
     seq (print (''Running for variant: '' @ variant @ ''_'' @ program)) (\<lambda>_.
     (let pdb_path = os_path_join env [path_to_pdbs, program, ''4UN3.'' @ variant @ ''.pdb''] in
      seq (call Time (time env)) (\<lambda>time_init.
      seq (call (PoseFromPdb pdb_path) (pose_from_pdb env pdb_path)) (\<lambda>loaded_pose.
      seq (if truthy complex_docking_flag
           then seq (dc loaded_pose) (\<lambda>_. ret dock_stats)
           else seq (dock_simple env loaded_pose) (\<lambda>r. ret (Some r))) (\<lambda>dock_stats'.
      seq (call Time (time env)) (\<lambda>time_final.
      (let results_filename = variant @ ''_'' @ program @ ''.txt'' in
       seq (case dock_stats' of
              None \<Rightarrow> raise (UnboundLocalError ''dock_stats'')
            | Some stats \<Rightarrow>
                write_dock_stats env path_to_scores results_filename stats
                  (fsub env time_final time_init)) (\<lambda>_.
       seq (print (''Finished writing scores for variant: '' @ variant @ ''_'' @ program)) (\<lambda>_.
       ret dock_stats')))))))))"

text \<open>The inner loop, \<^verbatim>\<open>for program in programs\<close>, and the outer one, \<^verbatim>\<open>for i in pam_variants\<close>.\<close>

fun dock_programs ::
  "('pose \<Rightarrow> ('f list, 'x, 'e) prog) \<Rightarrow> ('x, 'e, 'pose, 'f) env \<Rightarrow> string \<Rightarrow> string \<Rightarrow> pyval \<Rightarrow>
     string \<Rightarrow> string list \<Rightarrow> 'f list option \<Rightarrow> ('f list option, 'x, 'e) prog" where
  "dock_programs dc env path_to_scores path_to_pdbs flag variant [] dock_stats = ret dock_stats"
| "dock_programs dc env path_to_scores path_to_pdbs flag variant (program # rest) dock_stats =
     seq (dock_one dc env path_to_scores path_to_pdbs flag variant program dock_stats)
       (\<lambda>dock_stats'. dock_programs dc env path_to_scores path_to_pdbs flag variant rest dock_stats')"

fun dock_loop ::
  "('pose \<Rightarrow> ('f list, 'x, 'e) prog) \<Rightarrow> ('x, 'e, 'pose, 'f) env \<Rightarrow> string \<Rightarrow> string \<Rightarrow> pyval \<Rightarrow>
     int list \<Rightarrow> 'f list option \<Rightarrow> (unit, 'x, 'e) prog" where
  "dock_loop dc env path_to_scores path_to_pdbs flag [] dock_stats = ret ()"
| "dock_loop dc env path_to_scores path_to_pdbs flag (i # rest) dock_stats =
     seq (lift (variant_of i)) (\<lambda>variant.
     seq (dock_programs dc env path_to_scores path_to_pdbs flag variant programs dock_stats)
       (\<lambda>dock_stats'. dock_loop dc env path_to_scores path_to_pdbs flag rest dock_stats'))"

text \<open>\<^verbatim>\<open>dock_variants\<close>, lines 78 to 107, with the function of the complex branch as a parameter.\<close>

definition dock_variants_with ::
  "('pose \<Rightarrow> ('f list, 'x, 'e) prog) \<Rightarrow> ('x, 'e, 'pose, 'f) env \<Rightarrow> int list \<Rightarrow> string \<Rightarrow> string \<Rightarrow>
     pyval \<Rightarrow> (unit, 'x, 'e) prog" where
  "dock_variants_with dc env pam_variants path_to_scores path_to_pdbs complex_docking_flag =
     dock_loop dc env path_to_scores path_to_pdbs complex_docking_flag pam_variants None"

definition dock_variants ::
  "('x, 'e, 'pose, 'f) env \<Rightarrow> int list \<Rightarrow> string \<Rightarrow> string \<Rightarrow> pyval \<Rightarrow> (unit, 'x, 'e) prog" where
  "dock_variants env = dock_variants_with (dock_complex env) env"

section \<open>The entry point\<close>

text \<open>
  The command line after \<^verbatim>\<open>argparse\<close> has split it: \<^verbatim>\<open>-s\<close> and \<^verbatim>\<open>-e\<close> already
  converted by \<^verbatim>\<open>type=int\<close>, and the two switches declared with
  \<^verbatim>\<open>nargs='?', const=True, default=False, type=str\<close>.
\<close>

datatype switch = Absent | Bare | Given string

record cmdline =
  opt_start :: "int option"
  opt_end :: "int option"
  opt_output_dir :: "string option"
  opt_pdb_dir :: "string option"
  opt_complex :: switch
  opt_csv :: switch

record args =
  arg_start :: "int option"
  arg_end :: "int option"
  arg_output_dir :: "string option"
  arg_pdb_dir :: string
  arg_complex :: pyval
  arg_csv :: pyval

text \<open>
  The value of a switch: the default when the option is absent, the constant when it has
  no value, and the value converted by \<^verbatim>\<open>str\<close> when it has one.
\<close>

definition switch_value :: "switch \<Rightarrow> pyval" where
  "switch_value s = (case s of Absent \<Rightarrow> PyBool False | Bare \<Rightarrow> PyBool True | Given v \<Rightarrow> PyStr v)"

definition parse_args :: "cmdline \<Rightarrow> args" where
  "parse_args c =
     \<lparr>arg_start = opt_start c,
      arg_end = opt_end c,
      arg_output_dir = opt_output_dir c,
      arg_pdb_dir = (case opt_pdb_dir c of None \<Rightarrow> [] | Some d \<Rightarrow> d),
      arg_complex = switch_value (opt_complex c),
      arg_csv = switch_value (opt_csv c)\<rparr>"

text \<open>Line 128: \<^verbatim>\<open>0 <= args.start <= args.end <= 63\<close>, a chain of three comparisons.\<close>

definition range_ok :: "args \<Rightarrow> bool" where
  "range_ok a =
     (py_le (Some 0) (arg_start a) \<and> py_le (arg_start a) (arg_end a) \<and> py_le (arg_end a) (Some 63))"

text \<open>Lines 131 to 147: what the script does with the variants to score.\<close>

definition score_variants ::
  "('x, 'e, 'pose, 'f) env \<Rightarrow> args \<Rightarrow> int list \<Rightarrow> (unit, 'x, 'e) prog" where
  "score_variants env a pam_variants_to_score =
     seq (case arg_output_dir a of
            Some d \<Rightarrow> ret d
          | None \<Rightarrow>
              seq (call Strftime (strftime_now env)) (\<lambda>timestamp.
              ret (''results'' @ os_sep env @ timestamp @ os_sep env))) (\<lambda>path_to_scores.
     seq (\<lambda>w. if \<not> os_path_exists env path_to_scores (ext w)
              then call (MakeDirs path_to_scores) (os_makedirs env path_to_scores) w
              else ret () w) (\<lambda>_.
     seq (call RosettaInit (rosetta_init env)) (\<lambda>_.
     seq (dock_variants env pam_variants_to_score path_to_scores (arg_pdb_dir a) (arg_complex a)) (\<lambda>_.
     if truthy (arg_csv a) then call_csv env path_to_scores else ret ()))))"

text \<open>The script, lines 110 to 147.\<close>

definition main :: "('x, 'e, 'pose, 'f) env \<Rightarrow> cmdline \<Rightarrow> (unit, 'x, 'e) prog" where
  "main env c =
     (let a = parse_args c in
      if \<not> range_ok a then raise AssertionError
      else
        (case (arg_start a, arg_end a) of
           (Some s, Some e) \<Rightarrow> score_variants env a (py_range s (e + 1))
         | _ \<Rightarrow> raise TypeError))"

section \<open>Reading a trace\<close>

definition loaded_paths :: "event list \<Rightarrow> string list" where
  "loaded_paths tr = concat (map (\<lambda>ev. case ev of PoseFromPdb p \<Rightarrow> [p] | _ \<Rightarrow> []) tr)"

definition opened_paths :: "event list \<Rightarrow> string list" where
  "opened_paths tr = concat (map (\<lambda>ev. case ev of OpenAppend p \<Rightarrow> [p] | _ \<Rightarrow> []) tr)"

text \<open>The external calls of one variant and program, when nothing raises.\<close>

definition combination_trace ::
  "('x, 'e, 'pose, 'f) env \<Rightarrow> string \<Rightarrow> string \<Rightarrow> string \<Rightarrow> string \<Rightarrow> event list" where
  "combination_trace env path_to_scores path_to_pdbs variant program =
     [Time,
      PoseFromPdb (os_path_join env [path_to_pdbs, program, ''4UN3.'' @ variant @ ''.pdb'']),
      MakeProtocol, DnaScore, FaScore, DockingApply, DnaScore, FaScore,
      Time,
      OpenAppend (os_path_join env [path_to_scores, variant @ ''_'' @ program @ ''.txt''])]"

text \<open>
  What the specification says of a result file. \<open>append_file\<close> adds a text at the end of
  a file, creating it when it does not exist. \<open>scored_report\<close> says that a text is the
  five-line report of the scores \<open>dock_simple\<close> returned for a structure loaded from
  \<open>pdb_path\<close>, with a difference of two clock readings as its time.
\<close>

definition append_file :: "(string \<rightharpoonup> string) \<Rightarrow> string \<times> string \<Rightarrow> (string \<rightharpoonup> string)" where
  "append_file fs entry =
     fs(fst entry \<mapsto> (case fs (fst entry) of None \<Rightarrow> [] | Some c \<Rightarrow> c) @ snd entry)"

definition scored_report :: "('x, 'e, 'pose, 'f) env \<Rightarrow> string \<Rightarrow> string \<Rightarrow> bool" where
  "scored_report env pdb_path text \<longleftrightarrow>
     (\<exists>x x' pose (wa :: 'x world) wb stats xa xa' time_init xb xb' time_final.
        pose_from_pdb env pdb_path x = (Inr pose, x') \<and>
        dock_simple env pose wa = (Inr stats, wb) \<and>
        time env xa = (Inr time_init, xa') \<and>
        time env xb = (Inr time_final, xb') \<and>
        text = unlines (report env stats (fsub env time_final time_init)))"

text \<open>The paths of lines 94 and 104 for one variant and program.\<close>

definition pdb_path_of :: "('x, 'e, 'pose, 'f) env \<Rightarrow> string \<Rightarrow> string \<times> string \<Rightarrow> string" where
  "pdb_path_of env path_to_pdbs vp =
     os_path_join env [path_to_pdbs, snd vp, ''4UN3.'' @ fst vp @ ''.pdb'']"

definition result_path_of :: "('x, 'e, 'pose, 'f) env \<Rightarrow> string \<Rightarrow> string \<times> string \<Rightarrow> string" where
  "result_path_of env path_to_scores vp =
     os_path_join env [path_to_scores, fst vp @ ''_'' @ snd vp @ ''.txt'']"

text \<open>The variants and programs of a call, in the order of the two loops.\<close>

definition combinations :: "string list \<Rightarrow> (string \<times> string) list" where
  "combinations variants = concat (map (\<lambda>variant. map (Pair variant) programs) variants)"

section \<open>A small world to run the script in\<close>

text \<open>
  \<^verbatim>\<open>os.path.join\<close> of a POSIX system, and an environment where a pose is the path it
  was loaded from with a mark that says whether it was docked, a float is the text of its
  three decimals, the external state counts the calls to the clock, and nothing raises
  but loading a structure whose path is empty.
\<close>

definition posix_join2 :: "string \<Rightarrow> string \<Rightarrow> string" where
  "posix_join2 path b =
     (if b \<noteq> [] \<and> hd b = CHR ''/'' then b
      else if path = [] \<or> last path = CHR ''/'' then path @ b
      else path @ ''/'' @ b)"

definition posix_join :: "string list \<Rightarrow> string" where
  "posix_join ps = (case ps of [] \<Rightarrow> [] | a # rest \<Rightarrow> foldl posix_join2 a rest)"

definition demo_env :: "(nat, string, string \<times> bool, string) env" where
  "demo_env =
     \<lparr>time = (\<lambda>x. (Inr (if x = 0 then ''0.000'' else ''2.500''), Suc x)),
      fsub = (\<lambda>a b. ''2.500''),
      fixed3 = (\<lambda>v. v),
      os_path_join = posix_join,
      os_sep = ''/'',
      os_path_exists = (\<lambda>p x. False),
      os_makedirs = (\<lambda>p x. (Inr (), x)),
      os_open_append = (\<lambda>p x. (Inr (), x)),
      strftime_now = (\<lambda>x. (Inr ''2015-08-01 10.30.00AM'', x)),
      pose_from_pdb = (\<lambda>p x. (if p = [] then Inl ''no such file'' else Inr (p, False), x)),
      rosetta_init = (\<lambda>x. (Inr (), x)),
      make_protocol = (\<lambda>x. (Inr (), x)),
      dna_score = (\<lambda>pose x. (Inr (if snd pose then ''-31.250'' else ''-12.500''), x)),
      fa_score = (\<lambda>pose x. (Inr (if snd pose then ''104.000'' else ''250.125''), x)),
      docking_apply = (\<lambda>pose x. (Inr (fst pose, True), x)),
      exception_global = None,
      results_to_csv = (\<lambda>p fs x. (Inr (), fs, x))\<rparr>"

definition demo_world :: "nat world" where
  "demo_world = \<lparr>ext = 0, files = Map.empty, stdout = [], trace = []\<rparr>"

definition demo_cmdline :: cmdline where
  "demo_cmdline =
     \<lparr>opt_start = Some 27, opt_end = Some 27, opt_output_dir = Some ''out'',
      opt_pdb_dir = None, opt_complex = Absent, opt_csv = Absent\<rparr>"

section \<open>Properties of the variant strings\<close>

lemma digit_cases:
  fixes d :: int
  assumes "0 \<le> d" "d < 4"
  shows "d = 0 \<or> d = 1 \<or> d = 2 \<or> d = 3"
  using assms by arith

lemma digits_recompose:
  fixes i :: int
  shows "16 * (i div 16) + 4 * (i div 4 mod 4) + i mod 4 = i"
proof -
  define q where "q = i div 4"
  have e: "i div 16 = q div 4"
    unfolding q_def by (simp add: div_mult2_eq [symmetric])
  have "4 * (q div 4) + q mod 4 = q" by (rule mult_div_mod_eq)
  then have "16 * (q div 4) + 4 * (q mod 4) = 4 * q" by arith
  moreover have "4 * q + i mod 4 = i"
    unfolding q_def by (rule mult_div_mod_eq)
  ultimately show ?thesis
    unfolding e q_def by arith
qed

lemma digit2_of_sum:
  fixes a b c :: int
  assumes "0 \<le> b" "b < 4" "0 \<le> c" "c < 4"
  shows "(16 * a + 4 * b + c) div 16 = a"
proof -
  have "(4 * b + c + a * 16) div 16 = a + (4 * b + c) div 16"
    by (rule div_mult_self1) simp
  moreover have "(4 * b + c) div 16 = 0"
    using assms by (simp add: div_pos_pos_trivial)
  ultimately show ?thesis by (simp add: algebra_simps)
qed

lemma digit1_of_sum:
  fixes a b c :: int
  assumes "0 \<le> b" "b < 4" "0 \<le> c" "c < 4"
  shows "(16 * a + 4 * b + c) div 4 mod 4 = b"
proof -
  have "(c + (4 * a + b) * 4) div 4 = (4 * a + b) + c div 4"
    by (rule div_mult_self1) simp
  then have "(16 * a + 4 * b + c) div 4 = 4 * a + b"
    using assms by (simp add: algebra_simps)
  moreover have "(b + 4 * a) mod 4 = b mod 4" by (rule mod_mult_self2)
  ultimately show ?thesis using assms by (simp add: algebra_simps)
qed

lemma digit0_of_sum:
  fixes a b c :: int
  assumes "0 \<le> c" "c < 4"
  shows "(16 * a + 4 * b + c) mod 4 = c"
proof -
  have "(c + 4 * (4 * a + b)) mod 4 = c mod 4" by (rule mod_mult_self2)
  then show ?thesis using assms by (simp add: algebra_simps)
qed

lemma py_index_nts:
  fixes d :: int
  assumes "0 \<le> d" "d < 4"
  shows "(py_index dna_nts d :: 'e error + char) = Inr (dna_nts ! nat d)"
  using assms by (simp add: py_index_def dna_nts_def)

lemma nt_code_nth:
  fixes d :: int
  assumes "0 \<le> d" "d < 4"
  shows "nt_code (dna_nts ! nat d) = d"
  using digit_cases [OF assms] by (auto simp: nt_code_def dna_nts_def)

lemma nts_nth_code:
  assumes "x \<in> set dna_nts"
  shows "0 \<le> nt_code x \<and> nt_code x < 4 \<and> dna_nts ! nat (nt_code x) = x"
  using assms by (auto simp: nt_code_def dna_nts_def)

lemma nts_nth_mem:
  fixes d :: int
  assumes "0 \<le> d" "d < 4"
  shows "dna_nts ! nat d \<in> set dna_nts"
  using digit_cases [OF assms] by (auto simp: dna_nts_def)

lemma digits_in_range:
  fixes i :: int
  assumes "0 \<le> i" "i \<le> 63"
  shows "0 \<le> i div 16" "i div 16 < 4" "0 \<le> i div 4 mod 4" "i div 4 mod 4 < 4"
    "0 \<le> i mod 4" "i mod 4 < 4"
  using assms by simp_all

lemma variant_of_digits:
  assumes "0 \<le> i" "i \<le> 63"
  shows "(variant_of i :: 'e error + string) =
           Inr [dna_nts ! nat (i div 16), dna_nts ! nat (i div 4 mod 4), dna_nts ! nat (i mod 4)]"
  unfolding variant_of_def
  using digits_in_range [OF assms] by (simp add: py_index_nts)

lemma variant_index_of:
  assumes "0 \<le> i" "i \<le> 63"
  shows "variant_index (projr (variant_of i :: 'e error + string)) = i"
proof -
  have "variant_index (projr (variant_of i :: 'e error + string)) =
          16 * (i div 16) + 4 * (i div 4 mod 4) + i mod 4"
    using digits_in_range [OF assms]
    by (simp add: variant_of_digits [OF assms] variant_index_def nt_code_nth)
  then show ?thesis by (simp only: digits_recompose)
qed

lemma variant_of_index:
  assumes "length s = 3" "set s \<subseteq> set dna_nts"
  shows "0 \<le> variant_index s \<and> variant_index s \<le> 63 \<and>
         projr (variant_of (variant_index s) :: 'e error + string) = s"
proof -
  obtain x y z where s: "s = [x, y, z]"
    using assms(1) by (metis length_0_conv length_Suc_conv numeral_3_eq_3)
  have mem: "x \<in> set dna_nts" "y \<in> set dna_nts" "z \<in> set dna_nts"
    using assms(2) s by auto
  define a b c where "a = nt_code x" and "b = nt_code y" and "c = nt_code z"
  have ra: "0 \<le> a" "a < 4" "dna_nts ! nat a = x"
    using nts_nth_code [OF mem(1)] by (simp_all add: a_def)
  have rb: "0 \<le> b" "b < 4" "dna_nts ! nat b = y"
    using nts_nth_code [OF mem(2)] by (simp_all add: b_def)
  have rc: "0 \<le> c" "c < 4" "dna_nts ! nat c = z"
    using nts_nth_code [OF mem(3)] by (simp_all add: c_def)
  have idx: "variant_index s = 16 * a + 4 * b + c"
    by (simp add: variant_index_def s a_def b_def c_def)
  have range: "0 \<le> 16 * a + 4 * b + c" "16 * a + 4 * b + c \<le> 63"
    using ra(1,2) rb(1,2) rc(1,2) by arith+
  have d2: "(16 * a + 4 * b + c) div 16 = a" using rb(1,2) rc(1,2) by (rule digit2_of_sum)
  have d1: "(16 * a + 4 * b + c) div 4 mod 4 = b" using rb(1,2) rc(1,2) by (rule digit1_of_sum)
  have d0: "(16 * a + 4 * b + c) mod 4 = c" using rc(1,2) by (rule digit0_of_sum)
  have v: "(variant_of (16 * a + 4 * b + c) :: 'e error + string) = Inr [x, y, z]"
    by (simp add: variant_of_digits [OF range] d2 d1 d0 ra(3) rb(3) rc(3))
  show ?thesis
    unfolding idx using range v by (simp add: s)
qed

lemma variant_of_inj:
  assumes i: "0 \<le> i" "i \<le> 63" and j: "0 \<le> j" "j \<le> 63"
    and eq: "projr (variant_of i :: 'e error + string) = projr (variant_of j :: 'e error + string)"
  shows "i = j"
proof -
  have "i = variant_index (projr (variant_of i :: 'e error + string))"
    using i by (rule variant_index_of [symmetric])
  also have "\<dots> = variant_index (projr (variant_of j :: 'e error + string))"
    by (simp only: eq)
  also have "\<dots> = j"
    using j by (rule variant_index_of)
  finally show ?thesis .
qed

lemma variant_of_letters:
  assumes i: "0 \<le> i" "i \<le> 63"
  shows "length (projr (variant_of i :: 'e error + string)) = 3 \<and>
         set (projr (variant_of i :: 'e error + string)) \<subseteq> set dna_nts"
proof -
  note d = digits_in_range [OF i]
  have "dna_nts ! nat (i div 16) \<in> set dna_nts" using d(1,2) by (rule nts_nth_mem)
  moreover have "dna_nts ! nat (i div 4 mod 4) \<in> set dna_nts" using d(3,4) by (rule nts_nth_mem)
  moreover have "dna_nts ! nat (i mod 4) \<in> set dna_nts" using d(5,6) by (rule nts_nth_mem)
  ultimately show ?thesis by (simp add: variant_of_digits [OF i])
qed

text \<open>
  C1. For every integer \<open>i\<close> with \<open>0 \<le> i \<le> 63\<close> the variant string is
  \<open>dna_nts[i / 16] + dna_nts[i / 4 % 4] + dna_nts[i % 4]\<close> with \<open>dna_nts = "acgt"\<close>,
  and no exception is raised; the mapping is a bijection from \<open>{0..63}\<close> onto the strings
  of three letters over \<open>a, c, g, t\<close>.
\<close>

theorem variant_of_bijection:
  "dna_nts = ''acgt''
   \<and> (\<forall>i. 0 \<le> i \<and> i \<le> 63 \<longrightarrow>
      (variant_of i :: 'e error + string) =
        Inr [dna_nts ! nat (i div 16), dna_nts ! nat (i div 4 mod 4), dna_nts ! nat (i mod 4)])
   \<and> bij_betw (\<lambda>i. projr (variant_of i :: 'e error + string)) {0..63}
        {s. length s = 3 \<and> set s \<subseteq> set ''acgt''}"
proof (intro conjI allI impI)
  show "dna_nts = ''acgt''" by (rule dna_nts_def)
next
  fix i :: int
  assume "0 \<le> i \<and> i \<le> 63"
  then have "0 \<le> i" "i \<le> 63" by simp_all
  then show "(variant_of i :: 'e error + string) =
      Inr [dna_nts ! nat (i div 16), dna_nts ! nat (i div 4 mod 4), dna_nts ! nat (i mod 4)]"
    by (rule variant_of_digits)
next
  let ?f = "\<lambda>i. projr (variant_of i :: 'e error + string)"
  let ?S = "{s. length s = 3 \<and> set s \<subseteq> set ''acgt''}"
  have nts: "set ''acgt'' = set dna_nts" by (simp only: dna_nts_def)
  have inj: "inj_on ?f {0..63}"
  proof (rule inj_onI)
    fix i j :: int
    assume "i \<in> {0..63}" and "j \<in> {0..63}" and eq: "?f i = ?f j"
    then have "0 \<le> i" "i \<le> 63" "0 \<le> j" "j \<le> 63" by simp_all
    then show "i = j" using eq by (rule variant_of_inj)
  qed
  have img: "?f ` {0..63} = ?S"
  proof (intro equalityI subsetI)
    fix s assume "s \<in> ?f ` {0..63}"
    then obtain i where i: "0 \<le> i" "i \<le> 63" and s: "s = ?f i" by auto
    have "length (?f i) = 3 \<and> set (?f i) \<subseteq> set dna_nts"
      using i by (rule variant_of_letters)
    then show "s \<in> ?S" unfolding s nts by simp
  next
    fix s assume "s \<in> ?S"
    then have ls: "length s = 3" "set s \<subseteq> set dna_nts" unfolding nts by simp_all
    have "0 \<le> variant_index s \<and> variant_index s \<le> 63 \<and> ?f (variant_index s) = s"
      using ls by (rule variant_of_index)
    then have "variant_index s \<in> {0..63}" "s = ?f (variant_index s)" by simp_all
    then show "s \<in> ?f ` {0..63}" by (rule rev_image_eqI)
  qed
  show "bij_betw ?f {0..63} ?S"
    unfolding bij_betw_def using inj img by (rule conjI)
qed

theorem variant_of_bijection_witness:
  "(0::int) \<le> 27 \<and> (27::int) \<le> 63 \<and> (variant_of 27 :: unit error + string) = Inr ''cgt''"
proof -
  have r: "(0::int) \<le> 27 \<and> (27::int) \<le> 63" by simp
  have "\<forall>i. 0 \<le> i \<and> i \<le> 63 \<longrightarrow>
      (variant_of i :: unit error + string) =
        Inr [dna_nts ! nat (i div 16), dna_nts ! nat (i div 4 mod 4), dna_nts ! nat (i mod 4)]"
    using variant_of_bijection [where ?'e = unit] by (rule conjunct1 [OF conjunct2])
  with r have "(variant_of 27 :: unit error + string) =
      Inr [dna_nts ! nat (27 div 16), dna_nts ! nat (27 div 4 mod 4), dna_nts ! nat (27 mod 4)]"
    by blast
  then show ?thesis by (simp add: dna_nts_def)
qed

section \<open>Sequencing and external calls\<close>

lemma seq_Inr: "m w = (Inr a, w') \<Longrightarrow> seq m k w = k a w'"
  by (simp add: seq_def)

lemma seq_Inl: "m w = (Inl e, w') \<Longrightarrow> seq m k w = (Inl e, w')"
  by (simp add: seq_def)

lemma seq_eq_Inr_iff:
  "seq m k w = (Inr b, w2) \<longleftrightarrow> (\<exists>a w1. m w = (Inr a, w1) \<and> k a w1 = (Inr b, w2))"
  by (auto simp: seq_def split: prod.splits sum.splits)

lemma seq_eq_Inl_iff:
  "seq m k w = (Inl e, w2) \<longleftrightarrow>
     m w = (Inl e, w2) \<or> (\<exists>a w1. m w = (Inr a, w1) \<and> k a w1 = (Inl e, w2))"
  by (auto simp: seq_def split: prod.splits sum.splits)

lemma call_eq_Inr_iff:
  "call ev f w = (Inr a, w') \<longleftrightarrow>
     (\<exists>x. f (ext w) = (Inr a, x) \<and> w' = w\<lparr>ext := x, trace := trace w @ [ev]\<rparr>)"
  by (auto simp: call_def split: prod.splits sum.splits)

lemma call_eq_Inl_iff:
  "call ev f w = (Inl e, w') \<longleftrightarrow>
     (\<exists>e' x. f (ext w) = (Inl e', x) \<and> e = External e' \<and>
        w' = w\<lparr>ext := x, trace := trace w @ [ev]\<rparr>)"
  by (auto simp: call_def split: prod.splits sum.splits)

lemma call_files: "files (snd (call ev f w)) = files w"
  by (simp add: call_def split: prod.splits sum.splits)

section \<open>The score file\<close>

lemma open_append_ok:
  assumes "os_open_append env p (ext w) = (Inr (), x)"
  shows "open_append env p w =
    (Inr (), w\<lparr>ext := x, trace := trace w @ [OpenAppend p], files := (files w)(p \<mapsto> content w p)\<rparr>)"
  by (simp add: open_append_def seq_def call_def assms content_def)

lemma open_append_fails:
  assumes "os_open_append env p (ext w) = (Inl e, x)"
  shows "open_append env p w = (Inl (External e), w\<lparr>ext := x, trace := trace w @ [OpenAppend p]\<rparr>)"
  by (simp add: open_append_def seq_def call_def assms)

lemma write_dock_stats_ok:
  assumes op: "os_open_append env (os_path_join env [score_directory, filename]) (ext w) = (Inr (), x)"
    and len: "4 \<le> length dock_stats"
  shows "write_dock_stats env score_directory filename dock_stats time_diff w =
           (Inr (),
            w\<lparr>ext := x,
              files := (files w)(os_path_join env [score_directory, filename] \<mapsto>
                 content w (os_path_join env [score_directory, filename])
                   @ unlines (report env dock_stats time_diff)),
              trace := trace w @ [OpenAppend (os_path_join env [score_directory, filename])]\<rparr>)"
  using len
  by (auto simp: write_dock_stats_def Let_def seq_def open_append_ok [OF op] fwrite_def
      lift_def py_index_def content_def unlines_def report_def)

lemma write_dock_stats_open_fails:
  assumes op: "os_open_append env (os_path_join env [score_directory, filename]) (ext w) = (Inl e, x)"
  shows "write_dock_stats env score_directory filename dock_stats time_diff w =
           (Inl (External e),
            w\<lparr>ext := x,
              trace := trace w @ [OpenAppend (os_path_join env [score_directory, filename])]\<rparr>)"
  by (simp add: write_dock_stats_def Let_def seq_def open_append_fails [OF op])

lemma short_list_cases:
  assumes "length xs < 4"
  shows "xs = [] \<or> (\<exists>a. xs = [a]) \<or> (\<exists>a b. xs = [a, b]) \<or> (\<exists>a b c. xs = [a, b, c])"
proof (cases xs)
  case Nil
  then show ?thesis by simp
next
  case (Cons a ys)
  note c1 = this
  show ?thesis
  proof (cases ys)
    case Nil
    then show ?thesis using c1 by simp
  next
    case (Cons b zs)
    note c2 = this
    show ?thesis
    proof (cases zs)
      case Nil
      then show ?thesis using c1 c2 by simp
    next
      case (Cons c us)
      then have "us = []" using assms c1 c2 by simp
      then show ?thesis using c1 c2 Cons by simp
    qed
  qed
qed

lemma write_dock_stats_short:
  assumes op: "os_open_append env (os_path_join env [score_directory, filename]) (ext w) = (Inr (), x)"
    and len: "length dock_stats < 4"
  shows "\<exists>t. write_dock_stats env score_directory filename dock_stats time_diff w =
           (Inl IndexError,
            w\<lparr>ext := x,
              files := (files w)(os_path_join env [score_directory, filename] \<mapsto>
                 content w (os_path_join env [score_directory, filename]) @ t),
              trace := trace w @ [OpenAppend (os_path_join env [score_directory, filename])]\<rparr>)"
proof -
  let ?p = "os_path_join env [score_directory, filename]"
  let ?W = "\<lambda>t. (Inl IndexError,
     w\<lparr>ext := x, files := (files w)(?p \<mapsto> content w ?p @ t), trace := trace w @ [OpenAppend ?p]\<rparr>)"
  consider "dock_stats = []" | a where "dock_stats = [a]" | a b where "dock_stats = [a, b]"
    | a b c where "dock_stats = [a, b, c]"
    using short_list_cases [OF len] by blast
  then show ?thesis
  proof cases
    case 1
    have "write_dock_stats env score_directory filename dock_stats time_diff w = ?W []"
      by (simp add: 1 write_dock_stats_def Let_def seq_def open_append_ok [OF op] fwrite_def
          lift_def py_index_def content_def)
    then show ?thesis by blast
  next
    case 2
    have "write_dock_stats env score_directory filename dock_stats time_diff w =
        ?W (''Initial DNA score: '' @ fmt_8_3f env a @ [newline])"
      by (simp add: 2 write_dock_stats_def Let_def seq_def open_append_ok [OF op] fwrite_def
          lift_def py_index_def content_def)
    then show ?thesis by blast
  next
    case 3
    have "write_dock_stats env score_directory filename dock_stats time_diff w =
        ?W ((''Initial DNA score: '' @ fmt_8_3f env a @ [newline]) @
            (''Final DNA Score: '' @ fmt_8_3f env b @ [newline]))"
      by (simp add: 3 write_dock_stats_def Let_def seq_def open_append_ok [OF op] fwrite_def
          lift_def py_index_def content_def)
    then show ?thesis by blast
  next
    case 4
    have "write_dock_stats env score_directory filename dock_stats time_diff w =
        ?W ((''Initial DNA score: '' @ fmt_8_3f env a @ [newline]) @
            (''Final DNA Score: '' @ fmt_8_3f env b @ [newline]) @
            (''Initial FA score: '' @ fmt_8_3f env c @ [newline]))"
      by (simp add: 4 write_dock_stats_def Let_def seq_def open_append_ok [OF op] fwrite_def
          lift_def py_index_def content_def)
    then show ?thesis by blast
  qed
qed


lemma write_dock_stats_success:
  assumes "write_dock_stats env score_directory filename dock_stats time_diff w = (Inr u, w')"
  shows "4 \<le> length dock_stats \<and>
         (\<exists>x. os_open_append env (os_path_join env [score_directory, filename]) (ext w) = (Inr (), x))"
proof -
  let ?p = "os_path_join env [score_directory, filename]"
  obtain r x where op: "os_open_append env ?p (ext w) = (r, x)" by (cases "os_open_append env ?p (ext w)")
  show ?thesis
  proof (cases r)
    case (Inl e)
    then show ?thesis
      using write_dock_stats_open_fails [of env score_directory filename w e x dock_stats time_diff]
        op assms by simp
  next
    case (Inr v)
    then have op': "os_open_append env ?p (ext w) = (Inr (), x)" using op by simp
    have "\<not> length dock_stats < 4"
    proof
      assume "length dock_stats < 4"
      from write_dock_stats_short [OF op' this, of time_diff] assms show False by auto
    qed
    then show ?thesis using op' by auto
  qed
qed

lemma write_dock_stats_files:
  "files (snd (write_dock_stats env score_directory filename dock_stats time_diff w)) = files w \<or>
   (\<exists>t. files (snd (write_dock_stats env score_directory filename dock_stats time_diff w)) =
      (files w)(os_path_join env [score_directory, filename] \<mapsto>
         content w (os_path_join env [score_directory, filename]) @ t))"
proof -
  let ?p = "os_path_join env [score_directory, filename]"
  obtain r x where op: "os_open_append env ?p (ext w) = (r, x)" by (cases "os_open_append env ?p (ext w)")
  show ?thesis
  proof (cases r)
    case (Inl e)
    then show ?thesis
      using write_dock_stats_open_fails [of env score_directory filename w e x dock_stats time_diff] op
      by simp
  next
    case (Inr v)
    then have op': "os_open_append env ?p (ext w) = (Inr (), x)" using op by simp
    show ?thesis
    proof (cases "length dock_stats < 4")
      case True
      from write_dock_stats_short [OF op' True, of time_diff] show ?thesis by auto
    next
      case False
      then have "4 \<le> length dock_stats" by simp
      from write_dock_stats_ok [OF op' this, of time_diff] show ?thesis by auto
    qed
  qed
qed

lemma fmt_no_newline:
  "newline \<notin> set (fixed3 env v) \<Longrightarrow> newline \<notin> set (fmt_8_3f env v)"
  by (simp add: fmt_8_3f_def newline_def)

lemma count_list_append: "count_list (xs @ ys) a = count_list xs a + count_list ys a"
  by (induction xs) simp_all

lemma count_report_line:
  assumes "newline \<notin> set s" "newline \<notin> set (fixed3 env v)"
  shows "count_list (s @ fmt_8_3f env v @ [newline]) newline = 1"
  using assms(1) fmt_no_newline [OF assms(2)] by (simp add: count_list_append count_list_0_iff)

lemma report_newlines:
  assumes "4 \<le> length dock_stats"
    and "\<forall>v \<in> insert time_diff (set dock_stats). newline \<notin> set (fixed3 env v)"
  shows "count_list (unlines (report env dock_stats time_diff)) newline = 5"
proof -
  have m: "dock_stats ! 0 \<in> set dock_stats" "dock_stats ! 1 \<in> set dock_stats"
    "dock_stats ! 2 \<in> set dock_stats" "dock_stats ! 3 \<in> set dock_stats"
    by (rule nth_mem, use assms(1) in force)+
  have v: "newline \<notin> set (fixed3 env (dock_stats ! 0))" "newline \<notin> set (fixed3 env (dock_stats ! 1))"
    "newline \<notin> set (fixed3 env (dock_stats ! 2))" "newline \<notin> set (fixed3 env (dock_stats ! 3))"
    "newline \<notin> set (fixed3 env time_diff)"
    using assms(2) m by simp_all
  have n1: "newline \<notin> set ''Initial DNA score: ''" by (simp add: newline_def)
  have n2: "newline \<notin> set ''Final DNA Score: ''" by (simp add: newline_def)
  have n3: "newline \<notin> set ''Initial FA score: ''" by (simp add: newline_def)
  have n4: "newline \<notin> set ''Final FA score: ''" by (simp add: newline_def)
  have n5: "newline \<notin> set ''Total variant time: ''" by (simp add: newline_def)
  have "unlines (report env dock_stats time_diff) =
      (''Initial DNA score: '' @ fmt_8_3f env (dock_stats ! 0) @ [newline]) @
      (''Final DNA Score: '' @ fmt_8_3f env (dock_stats ! 1) @ [newline]) @
      (''Initial FA score: '' @ fmt_8_3f env (dock_stats ! 2) @ [newline]) @
      (''Final FA score: '' @ fmt_8_3f env (dock_stats ! 3) @ [newline]) @
      (''Total variant time: '' @ fmt_8_3f env time_diff @ [newline])"
    by (simp add: unlines_def report_def)
  then show ?thesis
    by (simp only: count_list_append [of "_ @ _ @ [newline]"] count_report_line [OF n1 v(1)]
        count_report_line [OF n2 v(2)] count_report_line [OF n3 v(3)]
        count_report_line [OF n4 v(4)] count_report_line [OF n5 v(5)])
qed

lemma demo_open: "os_open_append demo_env p x = (Inr (), x)"
  by (simp add: demo_env_def)

lemma demo_join2: "os_path_join demo_env [''out'', ''cgt_Chimera.txt''] = ''out/cgt_Chimera.txt''"
  by (simp add: demo_env_def posix_join_def posix_join2_def)

lemma demo_fixed3: "fixed3 demo_env v = v"
  by (simp add: demo_env_def)

text \<open>
  C2. One call of \<open>write_dock_stats\<close>, with a file that opens and the four scores of
  \<open>dock_stats\<close>, appends to \<open>score_directory/filename\<close> exactly five lines, in the order
  \<open>Initial DNA score:\<close>, \<open>Final DNA Score:\<close>, \<open>Initial FA score:\<close>, \<open>Final FA score:\<close>,
  \<open>Total variant time:\<close>, carrying \<open>dock_stats[0]\<close> to \<open>dock_stats[3]\<close> and
  \<open>time_diff\<close>, each formatted with \<open>%8.3f\<close>.
\<close>

theorem write_dock_stats_five_lines:
  assumes "os_open_append env (os_path_join env [score_directory, filename]) (ext w) = (Inr (), x)"
    and "4 \<le> length dock_stats"
    and "\<forall>v \<in> insert time_diff (set dock_stats). newline \<notin> set (fixed3 env v)"
  shows "write_dock_stats env score_directory filename dock_stats time_diff w =
           (Inr (),
            w\<lparr>ext := x,
              files := (files w)(os_path_join env [score_directory, filename] \<mapsto>
                 content w (os_path_join env [score_directory, filename])
                   @ unlines (report env dock_stats time_diff)),
              trace := trace w @ [OpenAppend (os_path_join env [score_directory, filename])]\<rparr>)
         \<and> report env dock_stats time_diff =
             [''Initial DNA score: '' @ fmt_8_3f env (dock_stats ! 0),
              ''Final DNA Score: '' @ fmt_8_3f env (dock_stats ! 1),
              ''Initial FA score: '' @ fmt_8_3f env (dock_stats ! 2),
              ''Final FA score: '' @ fmt_8_3f env (dock_stats ! 3),
              ''Total variant time: '' @ fmt_8_3f env time_diff]
         \<and> count_list (unlines (report env dock_stats time_diff)) newline = 5"
proof (intro conjI)
  show "write_dock_stats env score_directory filename dock_stats time_diff w =
           (Inr (),
            w\<lparr>ext := x,
              files := (files w)(os_path_join env [score_directory, filename] \<mapsto>
                 content w (os_path_join env [score_directory, filename])
                   @ unlines (report env dock_stats time_diff)),
              trace := trace w @ [OpenAppend (os_path_join env [score_directory, filename])]\<rparr>)"
    using assms(1,2) by (rule write_dock_stats_ok)
  show "report env dock_stats time_diff =
             [''Initial DNA score: '' @ fmt_8_3f env (dock_stats ! 0),
              ''Final DNA Score: '' @ fmt_8_3f env (dock_stats ! 1),
              ''Initial FA score: '' @ fmt_8_3f env (dock_stats ! 2),
              ''Final FA score: '' @ fmt_8_3f env (dock_stats ! 3),
              ''Total variant time: '' @ fmt_8_3f env time_diff]"
    by (rule report_def)
  show "count_list (unlines (report env dock_stats time_diff)) newline = 5"
    using assms(2,3) by (rule report_newlines)
qed

theorem write_dock_stats_five_lines_witness:
  "files (snd (write_dock_stats demo_env ''out'' ''cgt_Chimera.txt''
      [''-12.500'', ''-31.250'', ''250.125'', ''104.000''] ''2.500'' demo_world)) ''out/cgt_Chimera.txt'' =
     Some (''Initial DNA score:  -12.500'' @ [newline] @ ''Final DNA Score:  -31.250'' @ [newline] @
           ''Initial FA score:  250.125'' @ [newline] @ ''Final FA score:  104.000'' @ [newline] @
           ''Total variant time:    2.500'' @ [newline])"
proof -
  let ?st = "[''-12.500'', ''-31.250'', ''250.125'', ''104.000'']"
  have h1: "os_open_append demo_env (os_path_join demo_env [''out'', ''cgt_Chimera.txt'']) (ext demo_world)
      = (Inr (), 0)"
    by (simp add: demo_open demo_world_def)
  have h2: "4 \<le> length ?st" by simp
  have h3: "\<forall>v \<in> insert ''2.500'' (set ?st). newline \<notin> set (fixed3 demo_env v)"
    by (simp add: demo_fixed3 newline_def)
  from write_dock_stats_five_lines [OF h1 h2 h3]
  have "write_dock_stats demo_env ''out'' ''cgt_Chimera.txt'' ?st ''2.500'' demo_world =
           (Inr (),
            demo_world\<lparr>ext := 0,
              files := (files demo_world)(os_path_join demo_env [''out'', ''cgt_Chimera.txt''] \<mapsto>
                 content demo_world (os_path_join demo_env [''out'', ''cgt_Chimera.txt''])
                   @ unlines (report demo_env ?st ''2.500'')),
              trace := trace demo_world @ [OpenAppend (os_path_join demo_env [''out'', ''cgt_Chimera.txt''])]\<rparr>)"
    by (rule conjunct1)
  then show ?thesis
    by (simp add: demo_join2 content_def demo_world_def unlines_def report_def fmt_8_3f_def demo_fixed3
        eval_nat_numeral)
qed

text \<open>
  C8. \<open>write_dock_stats\<close> opens its file for appending: whatever the call does, every
  file keeps the content it had as a prefix of its new content; a second call on the same
  file leaves the five lines of the first in place and adds five more, ten lines in all.
\<close>

theorem write_dock_stats_appends_only:
  "(\<forall>p c. files w p = Some c \<longrightarrow>
      (\<exists>s. files (snd (write_dock_stats env score_directory filename stats1 time1 w)) p = Some (c @ s)))
   \<and> (\<forall>w1 w2.
        write_dock_stats env score_directory filename stats1 time1 w = (Inr (), w1) \<and>
        write_dock_stats env score_directory filename stats2 time2 w1 = (Inr (), w2) \<longrightarrow>
        files w1 (os_path_join env [score_directory, filename]) =
          Some (content w (os_path_join env [score_directory, filename])
                @ unlines (report env stats1 time1)) \<and>
        files w2 (os_path_join env [score_directory, filename]) =
          Some (content w (os_path_join env [score_directory, filename])
                @ unlines (report env stats1 time1) @ unlines (report env stats2 time2)) \<and>
        ((\<forall>v \<in> insert time1 (set stats1) \<union> insert time2 (set stats2).
            newline \<notin> set (fixed3 env v)) \<longrightarrow>
         count_list (unlines (report env stats1 time1) @ unlines (report env stats2 time2)) newline = 10))"
proof (intro conjI allI impI)
  fix p c
  assume old: "files w p = Some c"
  let ?w' = "snd (write_dock_stats env score_directory filename stats1 time1 w)"
  let ?q = "os_path_join env [score_directory, filename]"
  consider "files ?w' = files w" | t where "files ?w' = (files w)(?q \<mapsto> content w ?q @ t)"
    using write_dock_stats_files [of env score_directory filename stats1 time1 w] by blast
  then show "\<exists>s. files ?w' p = Some (c @ s)"
  proof cases
    case 1
    then have "files ?w' p = Some (c @ [])" using old by simp
    then show ?thesis by blast
  next
    case 2
    show ?thesis
    proof (cases "p = ?q")
      case True
      then have "files ?w' p = Some (c @ t)" using 2 old by (simp add: content_def)
      then show ?thesis by blast
    next
      case False
      then have "files ?w' p = Some (c @ [])" using 2 old by simp
      then show ?thesis by blast
    qed
  qed
next
  fix w1 w2
  assume runs: "write_dock_stats env score_directory filename stats1 time1 w = (Inr (), w1) \<and>
        write_dock_stats env score_directory filename stats2 time2 w1 = (Inr (), w2)"
  let ?q = "os_path_join env [score_directory, filename]"
  from runs have r1: "write_dock_stats env score_directory filename stats1 time1 w = (Inr (), w1)"
    and r2: "write_dock_stats env score_directory filename stats2 time2 w1 = (Inr (), w2)"
    by simp_all
  obtain x1 where l1: "4 \<le> length stats1" and o1: "os_open_append env ?q (ext w) = (Inr (), x1)"
    using write_dock_stats_success [OF r1] by blast
  obtain x2 where l2: "4 \<le> length stats2" and o2: "os_open_append env ?q (ext w1) = (Inr (), x2)"
    using write_dock_stats_success [OF r2] by blast
  have f1: "files w1 ?q = Some (content w ?q @ unlines (report env stats1 time1))"
    using write_dock_stats_ok [OF o1 l1, of time1] r1 by auto
  then have c1: "content w1 ?q = content w ?q @ unlines (report env stats1 time1)"
    by (simp add: content_def)
  have f2: "files w2 ?q = Some (content w1 ?q @ unlines (report env stats2 time2))"
    using write_dock_stats_ok [OF o2 l2, of time2] r2 by auto
  show "files w1 ?q = Some (content w ?q @ unlines (report env stats1 time1))"
    by (rule f1)
  show "files w2 ?q = Some (content w ?q @ unlines (report env stats1 time1)
      @ unlines (report env stats2 time2))"
    using f2 c1 by simp
  assume nl: "\<forall>v \<in> insert time1 (set stats1) \<union> insert time2 (set stats2).
      newline \<notin> set (fixed3 env v)"
  then have n1: "\<forall>v \<in> insert time1 (set stats1). newline \<notin> set (fixed3 env v)"
    and n2: "\<forall>v \<in> insert time2 (set stats2). newline \<notin> set (fixed3 env v)"
    by blast+
  show "count_list (unlines (report env stats1 time1) @ unlines (report env stats2 time2)) newline = 10"
    by (simp add: count_list_append report_newlines [OF l1 n1] report_newlines [OF l2 n2])
qed

theorem write_dock_stats_appends_only_witness:
  "files (snd (write_dock_stats demo_env ''out'' ''cgt_Chimera.txt''
       [''1.000'', ''2.000'', ''3.000'', ''4.000''] ''5.000''
       (snd (write_dock_stats demo_env ''out'' ''cgt_Chimera.txt''
          [''-12.500'', ''-31.250'', ''250.125'', ''104.000''] ''2.500'' demo_world))))
     ''out/cgt_Chimera.txt'' =
   Some (unlines [''Initial DNA score:  -12.500'', ''Final DNA Score:  -31.250'',
                  ''Initial FA score:  250.125'', ''Final FA score:  104.000'',
                  ''Total variant time:    2.500'',
                  ''Initial DNA score:    1.000'', ''Final DNA Score:    2.000'',
                  ''Initial FA score:    3.000'', ''Final FA score:    4.000'',
                  ''Total variant time:    5.000''])"
proof -
  let ?s1 = "[''-12.500'', ''-31.250'', ''250.125'', ''104.000'']"
  let ?s2 = "[''1.000'', ''2.000'', ''3.000'', ''4.000'']"
  let ?r1 = "write_dock_stats demo_env ''out'' ''cgt_Chimera.txt'' ?s1 ''2.500'' demo_world"
  let ?r2 = "write_dock_stats demo_env ''out'' ''cgt_Chimera.txt'' ?s2 ''5.000'' (snd ?r1)"
  have o: "\<And>w. os_open_append demo_env (os_path_join demo_env [''out'', ''cgt_Chimera.txt'']) (ext w)
      = (Inr (), ext w)"
    by (simp add: demo_open)
  have a1: "?r1 = (Inr (), snd ?r1)"
    by (simp add: write_dock_stats_ok [OF o])
  have a2: "?r2 = (Inr (), snd ?r2)"
    by (simp add: write_dock_stats_ok [OF o])
  from write_dock_stats_appends_only
    [of demo_world demo_env "''out''" "''cgt_Chimera.txt''" ?s1 "''2.500''" ?s2 "''5.000''"]
  have "\<forall>w1 w2. ?r1 = (Inr (), w1) \<and>
      write_dock_stats demo_env ''out'' ''cgt_Chimera.txt'' ?s2 ''5.000'' w1 = (Inr (), w2) \<longrightarrow>
      files w2 (os_path_join demo_env [''out'', ''cgt_Chimera.txt'']) =
          Some (content demo_world (os_path_join demo_env [''out'', ''cgt_Chimera.txt''])
                @ unlines (report demo_env ?s1 ''2.500'') @ unlines (report demo_env ?s2 ''5.000''))"
    by blast
  with a1 a2 have "files (snd ?r2) (os_path_join demo_env [''out'', ''cgt_Chimera.txt'']) =
          Some (content demo_world (os_path_join demo_env [''out'', ''cgt_Chimera.txt''])
                @ unlines (report demo_env ?s1 ''2.500'') @ unlines (report demo_env ?s2 ''5.000''))"
    by blast
  then show ?thesis
    by (simp add: demo_join2 content_def demo_world_def unlines_def report_def fmt_8_3f_def
        demo_fixed3 eval_nat_numeral)
qed

section \<open>Properties of docking\<close>

lemma seq_call_Inr_iff:
  "seq (call ev f) k w = (Inr b, w2) \<longleftrightarrow>
     (\<exists>a x. f (ext w) = (Inr a, x) \<and> k a (w\<lparr>ext := x, trace := trace w @ [ev]\<rparr>) = (Inr b, w2))"
  by (auto simp: seq_eq_Inr_iff call_eq_Inr_iff)

text \<open>
  C3. \<open>dock_simple\<close> returns normally exactly when the protocol is built, both score
  functions are evaluated on the pose, the docking protocol is applied, and both score
  functions are evaluated again on the docked pose, in this order; it then returns the four
  values in the order \<open>[dna_init, dna_final, fa_init, fa_final]\<close>.
\<close>

theorem dock_simple_scores:
  "dock_simple env pose w = (Inr stats, w') \<longleftrightarrow>
     (\<exists>x1 x2 x3 x4 x5 x6 dna_init fa_init docked dna_final fa_final.
        make_protocol env (ext w) = (Inr (), x1) \<and>
        dna_score env pose x1 = (Inr dna_init, x2) \<and>
        fa_score env pose x2 = (Inr fa_init, x3) \<and>
        docking_apply env pose x3 = (Inr docked, x4) \<and>
        dna_score env docked x4 = (Inr dna_final, x5) \<and>
        fa_score env docked x5 = (Inr fa_final, x6) \<and>
        stats = [dna_init, dna_final, fa_init, fa_final] \<and>
        w' = w\<lparr>ext := x6,
               trace := trace w @ [MakeProtocol, DnaScore, FaScore, DockingApply, DnaScore, FaScore]\<rparr>)"
  unfolding dock_simple_def
  by (simp add: seq_call_Inr_iff ret_def) blast

theorem dock_simple_scores_witness:
  "dock_simple demo_env (''Chimera/4UN3.cgt.pdb'', False) demo_world =
     (Inr [''-12.500'', ''-31.250'', ''250.125'', ''104.000''],
      demo_world\<lparr>trace := [MakeProtocol, DnaScore, FaScore, DockingApply, DnaScore, FaScore]\<rparr>)"
proof -
  have "\<exists>x1 x2 x3 x4 x5 x6 dna_init fa_init docked dna_final fa_final.
        make_protocol demo_env (ext demo_world) = (Inr (), x1) \<and>
        dna_score demo_env (''Chimera/4UN3.cgt.pdb'', False) x1 = (Inr dna_init, x2) \<and>
        fa_score demo_env (''Chimera/4UN3.cgt.pdb'', False) x2 = (Inr fa_init, x3) \<and>
        docking_apply demo_env (''Chimera/4UN3.cgt.pdb'', False) x3 = (Inr docked, x4) \<and>
        dna_score demo_env docked x4 = (Inr dna_final, x5) \<and>
        fa_score demo_env docked x5 = (Inr fa_final, x6) \<and>
        [''-12.500'', ''-31.250'', ''250.125'', ''104.000''] = [dna_init, dna_final, fa_init, fa_final] \<and>
        demo_world\<lparr>trace := [MakeProtocol, DnaScore, FaScore, DockingApply, DnaScore, FaScore]\<rparr> =
          demo_world\<lparr>ext := x6,
               trace := trace demo_world @ [MakeProtocol, DnaScore, FaScore, DockingApply, DnaScore, FaScore]\<rparr>"
    by (simp add: demo_env_def demo_world_def)
  then show ?thesis by (simp only: dock_simple_scores)
qed

text \<open>
  C5. For every pose \<open>dock_complex\<close> raises an exception and never returns a list of
  scores, whatever the name \<open>exception\<close> is bound to; no file is touched.
\<close>

theorem dock_complex_raises:
  "(\<exists>e w'. dock_complex env pose w = (Inl e, w') \<and> files w' = files w \<and>
      (e = NameError ''exception'' \<or> e = Raised ''Complex docking not implemented'' \<or>
       e = TypeError \<or> is_external e))
   \<and> (\<forall>stats w'. dock_complex env pose w \<noteq> (Inr stats, w'))"
proof (cases "exception_global env")
  case None
  then show ?thesis by (simp add: dock_complex_def raise_def)
next
  case (Some f)
  obtain r x where c: "f ''Complex docking not implemented'' (ext w) = (r, x)"
    by (cases "f ''Complex docking not implemented'' (ext w)")
  show ?thesis
  proof (cases r)
    case (Inl e)
    then show ?thesis
      using c Some by (simp add: dock_complex_def seq_def call_def is_external_def)
  next
    case (Inr obj)
    then show ?thesis
      using c Some by (cases obj) (simp_all add: dock_complex_def seq_def call_def raise_def)
  qed
qed

section \<open>The two switches\<close>



section \<open>One variant and program\<close>

lemma seq_call_Inl_iff:
  "seq (call ev f) k w = (Inl e, w2) \<longleftrightarrow>
     (\<exists>e' x. f (ext w) = (Inl e', x) \<and> e = External e' \<and>
        w2 = w\<lparr>ext := x, trace := trace w @ [ev]\<rparr>) \<or>
     (\<exists>a x. f (ext w) = (Inr a, x) \<and> k a (w\<lparr>ext := x, trace := trace w @ [ev]\<rparr>) = (Inl e, w2))"
  by (auto simp: seq_eq_Inl_iff call_eq_Inl_iff call_eq_Inr_iff)

lemma seq_InrE:
  assumes "seq m k w = (Inr b, w2)"
  obtains a w1 where "m w = (Inr a, w1)" "k a w1 = (Inr b, w2)"
  using assms by (auto simp: seq_eq_Inr_iff)

lemma seq_InlE:
  assumes "seq m k w = (Inl e, w2)"
  obtains "m w = (Inl e, w2)" | a w1 where "m w = (Inr a, w1)" "k a w1 = (Inl e, w2)"
  using assms by (auto simp: seq_eq_Inl_iff)

lemma seq_print:
  "seq (print s) k w = k () (w\<lparr>stdout := stdout w @ [s]\<rparr>)"
  by (simp add: seq_def print_def)

lemma dock_simple_Inr:
  assumes "dock_simple env pose w = (Inr stats, w')"
  shows "length stats = 4 \<and> files w' = files w \<and> stdout w' = stdout w \<and>
         trace w' = trace w @ [MakeProtocol, DnaScore, FaScore, DockingApply, DnaScore, FaScore]"
  using assms unfolding dock_simple_def
  by (auto simp: seq_call_Inr_iff ret_def)

lemma dock_simple_Inl:
  assumes "dock_simple env pose w = (Inl e, w')"
  shows "is_external e \<and> files w' = files w"
  using assms unfolding dock_simple_def
  by (auto simp: seq_call_Inl_iff ret_def is_external_def)

lemma dock_complex_Inl:
  assumes "dock_complex env pose w = (r, w')"
  shows "files w' = files w \<and>
    (\<exists>e. r = Inl e \<and> (e = NameError ''exception'' \<or> e = Raised ''Complex docking not implemented'' \<or>
       e = TypeError \<or> is_external e))"
proof (cases "exception_global env")
  case None
  then show ?thesis using assms by (auto simp: dock_complex_def raise_def)
next
  case (Some f)
  obtain r0 x where c: "f ''Complex docking not implemented'' (ext w) = (r0, x)"
    by (cases "f ''Complex docking not implemented'' (ext w)")
  show ?thesis
  proof (cases r0)
    case (Inl e)
    then show ?thesis
      using c Some assms by (auto simp: dock_complex_def seq_def call_def is_external_def)
  next
    case (Inr obj)
    then show ?thesis
      using c Some assms by (cases obj) (auto simp: dock_complex_def seq_def call_def raise_def)
  qed
qed

lemma write_dock_stats_Inl:
  assumes "write_dock_stats env score_directory filename dock_stats time_diff w = (Inl e, w')"
    and "length dock_stats = 4"
  shows "is_external e \<and> files w' = files w"
proof -
  let ?p = "os_path_join env [score_directory, filename]"
  obtain r x where op: "os_open_append env ?p (ext w) = (r, x)" by (cases "os_open_append env ?p (ext w)")
  show ?thesis
  proof (cases r)
    case (Inl e0)
    then show ?thesis
      using write_dock_stats_open_fails [of env score_directory filename w e0 x dock_stats time_diff]
        op assms(1) by (auto simp: is_external_def)
  next
    case (Inr v)
    then have op': "os_open_append env ?p (ext w) = (Inr (), x)" using op by simp
    have "4 \<le> length dock_stats" using assms(2) by simp
    from write_dock_stats_ok [OF op' this, of time_diff] assms(1) show ?thesis by simp
  qed
qed

lemma write_dock_stats_Inr:
  assumes "write_dock_stats env score_directory filename dock_stats time_diff w = (Inr u, w')"
  shows "trace w' = trace w @ [OpenAppend (os_path_join env [score_directory, filename])] \<and>
         stdout w' = stdout w \<and>
         files w' = (files w)(os_path_join env [score_directory, filename] \<mapsto>
            content w (os_path_join env [score_directory, filename])
              @ unlines (report env dock_stats time_diff))"
proof -
  obtain x where l: "4 \<le> length dock_stats"
    and o: "os_open_append env (os_path_join env [score_directory, filename]) (ext w) = (Inr (), x)"
    using write_dock_stats_success [OF assms] by blast
  from write_dock_stats_ok [OF o l, of time_diff] assms show ?thesis by auto
qed

text \<open>What a run of the loop body that returns has done, on the simple branch.\<close>

lemma dock_one_simple_Inr:
  assumes "\<not> truthy flag"
    and "dock_one dc env path_to_scores path_to_pdbs flag variant program ds w = (Inr ds', w')"
  shows "(\<exists>stats. ds' = Some stats) \<and>
         trace w' = trace w @ combination_trace env path_to_scores path_to_pdbs variant program \<and>
         dom (files w') =
           insert (os_path_join env [path_to_scores, variant @ ''_'' @ program @ ''.txt'']) (dom (files w))"
  using assms(2) unfolding dock_one_def Let_def
  apply (simp add: assms(1))
  apply (elim seq_InrE)
  apply (auto simp: call_eq_Inr_iff ret_def print_def combination_trace_def
      split: option.splits dest!: dock_simple_Inr write_dock_stats_Inr)
  done

text \<open>On the complex branch the loop body never gets to write.\<close>

lemma dock_one_complex:
  assumes "truthy flag"
    and "\<forall>pose w. files (snd (dc pose w)) = files w"
  shows "\<exists>e w'. dock_one dc env path_to_scores path_to_pdbs flag variant program None w = (Inl e, w') \<and>
      files w' = files w \<and>
      (is_external e \<or> (\<exists>pose w1 w2. dc pose w1 = (Inl e, w2)) \<or> e = UnboundLocalError ''dock_stats'')"
proof -
  let ?p = "os_path_join env [path_to_pdbs, program, ''4UN3.'' @ variant @ ''.pdb'']"
  let ?w0 = "w\<lparr>stdout := stdout w @ [''Running for variant: '' @ variant @ ''_'' @ program]\<rparr>"
  let ?body = "dock_one dc env path_to_scores path_to_pdbs flag variant program None w"
  obtain r1 x1 where s1: "time env (ext w) = (r1, x1)" by (cases "time env (ext w)")
  show ?thesis
  proof (cases r1)
    case (Inl e1)
    then have "?body = (Inl (External e1), ?w0\<lparr>ext := x1, trace := trace w @ [Time]\<rparr>)"
      using s1 unfolding dock_one_def Let_def by (simp add: seq_def print_def call_def)
    then show ?thesis by (simp add: is_external_def)
  next
    case (Inr t0)
    note t0 = this
    let ?w1 = "?w0\<lparr>ext := x1, trace := trace w @ [Time]\<rparr>"
    obtain r2 x2 where s2: "pose_from_pdb env ?p x1 = (r2, x2)" by (cases "pose_from_pdb env ?p x1")
    show ?thesis
    proof (cases r2)
      case (Inl e2)
      then have "?body = (Inl (External e2), ?w0\<lparr>ext := x2, trace := trace w @ [Time, PoseFromPdb ?p]\<rparr>)"
        using s1 t0 s2 unfolding dock_one_def Let_def by (simp add: seq_def print_def call_def)
      then show ?thesis by (simp add: is_external_def)
    next
      case (Inr pose)
      note pose = this
      let ?w2 = "?w0\<lparr>ext := x2, trace := trace w @ [Time, PoseFromPdb ?p]\<rparr>"
      obtain r3 w3 where s3: "dc pose ?w2 = (r3, w3)" by (cases "dc pose ?w2")
      have f3: "files w3 = files w"
        using assms(2) [rule_format, of pose ?w2] s3 by simp
      show ?thesis
      proof (cases r3)
        case (Inl e3)
        then have "?body = (Inl e3, w3)"
          using s1 t0 s2 pose s3 assms(1) unfolding dock_one_def Let_def
          by (simp add: seq_def print_def call_def)
        moreover have "dc pose ?w2 = (Inl e3, w3)" using s3 Inl by simp
        ultimately show ?thesis using f3 by blast
      next
        case (Inr st)
        note st = this
        obtain r4 x4 where s4: "time env (ext w3) = (r4, x4)" by (cases "time env (ext w3)")
        show ?thesis
        proof (cases r4)
          case (Inl e4)
          then have "?body = (Inl (External e4), w3\<lparr>ext := x4, trace := trace w3 @ [Time]\<rparr>)"
            using s1 t0 s2 pose s3 st s4 assms(1) unfolding dock_one_def Let_def
            by (simp add: seq_def print_def call_def ret_def)
          then show ?thesis using f3 by (simp add: is_external_def)
        next
          case (Inr t1)
          then have "?body = (Inl (UnboundLocalError ''dock_stats''),
              w3\<lparr>ext := x4, trace := trace w3 @ [Time]\<rparr>)"
            using s1 t0 s2 pose s3 st s4 assms(1) unfolding dock_one_def Let_def
            by (simp add: seq_def print_def call_def ret_def raise_def)
          then show ?thesis using f3 by simp
        qed
      qed
    qed
  qed
qed

section \<open>The two loops\<close>

lemma py_index_Inl:
  assumes "(py_index xs i :: 'e error + 'a) = Inl e"
  shows "e = IndexError"
  using assms unfolding py_index_def by (simp split: if_splits)

lemma variant_of_Inl:
  assumes "(variant_of i :: 'e error + string) = Inl e"
  shows "e = IndexError"
proof (cases "py_index dna_nts (i div 16) :: 'e error + char")
  case (Inl e1)
  then show ?thesis using assms py_index_Inl [OF Inl] by (simp add: variant_of_def)
next
  case a: (Inr a)
  show ?thesis
  proof (cases "py_index dna_nts (i div 4 mod 4) :: 'e error + char")
    case (Inl e2)
    then show ?thesis using assms a py_index_Inl [OF Inl] by (simp add: variant_of_def)
  next
    case b: (Inr b)
    show ?thesis
    proof (cases "py_index dna_nts (i mod 4) :: 'e error + char")
      case (Inl e3)
      then show ?thesis using assms a b py_index_Inl [OF Inl] by (simp add: variant_of_def)
    next
      case (Inr c)
      then show ?thesis using assms a b by (simp add: variant_of_def)
    qed
  qed
qed

lemma dock_complex_files: "files (snd (dock_complex env pose w)) = files w"
  using dock_complex_Inl [of env pose w "fst (dock_complex env pose w)" "snd (dock_complex env pose w)"]
  by simp

text \<open>
  With a true flag and a non-empty list of variants the loop ends in the body of the first
  variant and \<open>Chimera\<close>, whatever function \<open>dc\<close> stands on the complex branch, as long
  as it writes no file.
\<close>

lemma dock_variants_with_complex:
  fixes env :: "('x, 'e, 'pose, 'f) env"
  assumes "truthy flag"
    and "pam_variants \<noteq> []"
    and "\<forall>pose w. files (snd (dc pose w)) = files w"
  shows "\<exists>e w'.
      dock_variants_with dc env pam_variants path_to_scores path_to_pdbs flag w = (Inl e, w') \<and>
      files w' = files w \<and>
      (case (variant_of (hd pam_variants) :: 'e error + string) of
         Inl e0 \<Rightarrow> e = IndexError \<and> w' = w
       | Inr variant \<Rightarrow>
           dock_one dc env path_to_scores path_to_pdbs flag variant ''Chimera'' None w = (Inl e, w') \<and>
           (is_external e \<or> (\<exists>pose w1 w2. dc pose w1 = (Inl e, w2)) \<or>
            e = UnboundLocalError ''dock_stats''))"
proof -
  obtain i rest where pam: "pam_variants = i # rest"
    using assms(2) by (cases pam_variants) simp_all
  show ?thesis
  proof (cases "variant_of i :: 'e error + string")
    case (Inl e0)
    then have "e0 = IndexError" by (rule variant_of_Inl)
    then show ?thesis
      using Inl by (simp add: pam dock_variants_with_def seq_def lift_def)
  next
    case (Inr variant)
    obtain e w' where
      b: "dock_one dc env path_to_scores path_to_pdbs flag variant ''Chimera'' None w = (Inl e, w')"
      and f: "files w' = files w"
      and o: "is_external e \<or> (\<exists>pose w1 w2. dc pose w1 = (Inl e, w2)) \<or>
              e = UnboundLocalError ''dock_stats''"
      using dock_one_complex [OF assms(1,3)] by blast
    have "dock_variants_with dc env pam_variants path_to_scores path_to_pdbs flag w = (Inl e, w')"
      using Inr b by (simp add: pam dock_variants_with_def seq_def lift_def programs_def)
    then show ?thesis using Inr b f o by (simp add: pam)
  qed
qed

lemma demo_dock_complex: "dock_complex demo_env pose w = (Inl (NameError ''exception''), w)"
  by (simp add: dock_complex_def demo_env_def raise_def)

lemma demo_time: "time demo_env x = (Inr (if x = 0 then ''0.000'' else ''2.500''), Suc x)"
  by (simp add: demo_env_def)

lemma demo_load: "p \<noteq> [] \<Longrightarrow> pose_from_pdb demo_env p x = (Inr (p, False), x)"
  by (simp add: demo_env_def)

lemma demo_path:
  "os_path_join demo_env [[], ''Chimera'', ''4UN3.'' @ ''cgt'' @ ''.pdb''] = ''Chimera/4UN3.cgt.pdb''"
  by (simp add: demo_env_def posix_join_def posix_join2_def)

lemma demo_one_complex:
  "dock_one (dock_complex demo_env) demo_env ''out'' [] (PyStr ''False'') ''cgt'' ''Chimera'' None
     demo_world =
   (Inl (NameError ''exception''),
    demo_world\<lparr>ext := 1, stdout := [''Running for variant: cgt_Chimera''],
      trace := [Time, PoseFromPdb ''Chimera/4UN3.cgt.pdb'']\<rparr>)"
  unfolding dock_one_def Let_def demo_path
  by (simp add: seq_def print_def call_def demo_time demo_load
      demo_dock_complex truthy_def demo_world_def)

section \<open>Runs that return\<close>

lemma loaded_paths_append: "loaded_paths (xs @ ys) = loaded_paths xs @ loaded_paths ys"
  by (simp add: loaded_paths_def)

lemma opened_paths_append: "opened_paths (xs @ ys) = opened_paths xs @ opened_paths ys"
  by (simp add: opened_paths_def)

lemma loaded_paths_combination:
  "loaded_paths (combination_trace env path_to_scores path_to_pdbs variant program) =
     [os_path_join env [path_to_pdbs, program, ''4UN3.'' @ variant @ ''.pdb'']]"
  by (simp add: loaded_paths_def combination_trace_def)

lemma opened_paths_combination:
  "opened_paths (combination_trace env path_to_scores path_to_pdbs variant program) =
     [os_path_join env [path_to_scores, variant @ ''_'' @ program @ ''.txt'']]"
  by (simp add: opened_paths_def combination_trace_def)

lemma loaded_paths_programs:
  "loaded_paths (concat (map (combination_trace env path_to_scores path_to_pdbs variant) progs)) =
     map (\<lambda>program. os_path_join env [path_to_pdbs, program, ''4UN3.'' @ variant @ ''.pdb'']) progs"
  by (induction progs) (simp_all add: loaded_paths_append loaded_paths_combination, simp add: loaded_paths_def)

lemma opened_paths_programs:
  "opened_paths (concat (map (combination_trace env path_to_scores path_to_pdbs variant) progs)) =
     map (\<lambda>program. os_path_join env [path_to_scores, variant @ ''_'' @ program @ ''.txt'']) progs"
  by (induction progs) (simp_all add: opened_paths_append opened_paths_combination, simp add: opened_paths_def)

lemma dock_programs_simple_Inr:
  assumes "\<not> truthy flag"
    and "dock_programs dc env path_to_scores path_to_pdbs flag variant progs ds w = (Inr ds', w')"
  shows "trace w' = trace w @ concat (map (combination_trace env path_to_scores path_to_pdbs variant) progs) \<and>
         dom (files w') = dom (files w) \<union>
           (\<lambda>program. os_path_join env [path_to_scores, variant @ ''_'' @ program @ ''.txt'']) ` set progs"
  using assms(2)
proof (induction progs arbitrary: ds w)
  case Nil
  then show ?case by (simp add: ret_def)
next
  case (Cons program rest)
  from Cons.prems obtain ds1 w1 where
    one: "dock_one dc env path_to_scores path_to_pdbs flag variant program ds w = (Inr ds1, w1)"
    and more: "dock_programs dc env path_to_scores path_to_pdbs flag variant rest ds1 w1 = (Inr ds', w')"
    by (auto elim: seq_InrE)
  from dock_one_simple_Inr [OF assms(1) one]
  have t1: "trace w1 = trace w @ combination_trace env path_to_scores path_to_pdbs variant program"
    and f1: "dom (files w1) =
      insert (os_path_join env [path_to_scores, variant @ ''_'' @ program @ ''.txt'']) (dom (files w))"
    by simp_all
  from Cons.IH [OF more] show ?case
    by (simp add: t1 f1)
qed

lemma dock_loop_simple_Inr:
  fixes env :: "('x, 'e, 'pose, 'f) env"
  assumes "\<not> truthy flag"
    and "dock_loop dc env path_to_scores path_to_pdbs flag pam ds w = (Inr u, w')"
  shows "(\<forall>i \<in> set pam. \<exists>v. (variant_of i :: 'e error + string) = Inr v) \<and>
         trace w' = trace w @ concat (map (\<lambda>i. concat (map
             (combination_trace env path_to_scores path_to_pdbs
                (projr (variant_of i :: 'e error + string))) programs)) pam) \<and>
         dom (files w') = dom (files w) \<union>
           (\<Union>i \<in> set pam. (\<lambda>program. os_path_join env
               [path_to_scores, projr (variant_of i :: 'e error + string) @ ''_'' @ program @ ''.txt''])
             ` set programs)"
  using assms(2)
proof (induction pam arbitrary: ds w)
  case Nil
  then show ?case by (simp add: ret_def)
next
  case (Cons i rest)
  from Cons.prems obtain variant ds1 w1 where
    v: "(variant_of i :: 'e error + string) = Inr variant"
    and inner: "dock_programs dc env path_to_scores path_to_pdbs flag variant programs ds w = (Inr ds1, w1)"
    and more: "dock_loop dc env path_to_scores path_to_pdbs flag rest ds1 w1 = (Inr u, w')"
    by (auto elim!: seq_InrE simp: lift_def)
  from dock_programs_simple_Inr [OF assms(1) inner]
  have t1: "trace w1 = trace w @ concat (map (combination_trace env path_to_scores path_to_pdbs variant) programs)"
    and f1: "dom (files w1) = dom (files w) \<union>
      (\<lambda>program. os_path_join env [path_to_scores, variant @ ''_'' @ program @ ''.txt'']) ` set programs"
    by simp_all
  from Cons.IH [OF more] show ?case
    by (simp add: t1 f1 v Un_assoc)
qed

lemma dock_loop_complex_Inl:
  fixes env :: "('x, 'e, 'pose, 'f) env"
  assumes "truthy flag"
    and "pam \<noteq> []"
    and "\<forall>pose w. files (snd (dc pose w)) = files w"
  shows "\<exists>e w'. dock_loop dc env path_to_scores path_to_pdbs flag pam None w = (Inl e, w')"
proof -
  obtain i rest where pam: "pam = i # rest"
    using assms(2) by (cases pam) simp_all
  show ?thesis
  proof (cases "variant_of i :: 'e error + string")
    case (Inl e0)
    then show ?thesis by (simp add: pam seq_def lift_def)
  next
    case (Inr variant)
    obtain e w' where
      b: "dock_one dc env path_to_scores path_to_pdbs flag variant ''Chimera'' None w = (Inl e, w')"
      using dock_one_complex [OF assms(1,3)] by blast
    then show ?thesis
      using Inr by (simp add: pam seq_def lift_def programs_def)
  qed
qed

lemma loaded_paths_variants:
  "loaded_paths (concat (map (\<lambda>i. concat (map
       (combination_trace env path_to_scores path_to_pdbs (var i)) progs)) pam)) =
   concat (map (\<lambda>i. map (\<lambda>program.
       os_path_join env [path_to_pdbs, program, ''4UN3.'' @ var i @ ''.pdb'']) progs) pam)"
proof (induction pam)
  case Nil
  show ?case by (simp add: loaded_paths_def)
next
  case (Cons i rest)
  then show ?case by (simp add: loaded_paths_append loaded_paths_programs)
qed

lemma opened_paths_variants:
  "opened_paths (concat (map (\<lambda>i. concat (map
       (combination_trace env path_to_scores path_to_pdbs (var i)) progs)) pam)) =
   concat (map (\<lambda>i. map (\<lambda>program.
       os_path_join env [path_to_scores, var i @ ''_'' @ program @ ''.txt'']) progs) pam)"
proof (induction pam)
  case Nil
  show ?case by (simp add: opened_paths_def)
next
  case (Cons i rest)
  then show ?case by (simp add: opened_paths_append opened_paths_programs)
qed

lemma dock_variants_Inr:
  fixes env :: "('x, 'e, 'pose, 'f) env"
  assumes "dock_variants env pam path_to_scores path_to_pdbs flag w = (Inr u, w')"
  shows "(\<forall>i \<in> set pam. \<exists>v. (variant_of i :: 'e error + string) = Inr v) \<and>
         trace w' = trace w @ concat (map (\<lambda>i. concat (map
             (combination_trace env path_to_scores path_to_pdbs
                (projr (variant_of i :: 'e error + string))) programs)) pam) \<and>
         dom (files w') = dom (files w) \<union>
           (\<Union>i \<in> set pam. (\<lambda>program. os_path_join env
               [path_to_scores, projr (variant_of i :: 'e error + string) @ ''_'' @ program @ ''.txt''])
             ` set programs)"
proof (cases "truthy flag")
  case False
  then show ?thesis
    using assms unfolding dock_variants_def dock_variants_with_def
    by (rule dock_loop_simple_Inr)
next
  case True
  have "pam = []"
  proof (rule ccontr)
    assume "pam \<noteq> []"
    from dock_loop_complex_Inl [OF True this, of "dock_complex env" env path_to_scores path_to_pdbs w]
    show False
      using assms by (simp add: dock_variants_def dock_variants_with_def dock_complex_files)
  qed
  then show ?thesis
    using assms by (simp add: dock_variants_def dock_variants_with_def ret_def)
qed

lemma loaded_paths_Nil: "loaded_paths [] = []"
  by (simp add: loaded_paths_def)

lemma opened_paths_Nil: "opened_paths [] = []"
  by (simp add: opened_paths_def)

lemma demo_make_protocol: "make_protocol demo_env x = (Inr (), x)"
  by (simp add: demo_env_def)

lemma demo_dna_score:
  "dna_score demo_env pose x = (Inr (if snd pose then ''-31.250'' else ''-12.500''), x)"
  by (simp add: demo_env_def)

lemma demo_fa_score:
  "fa_score demo_env pose x = (Inr (if snd pose then ''104.000'' else ''250.125''), x)"
  by (simp add: demo_env_def)

lemma demo_docking_apply: "docking_apply demo_env pose x = (Inr (fst pose, True), x)"
  by (simp add: demo_env_def)

lemma demo_fsub: "fsub demo_env a b = ''2.500''"
  by (simp add: demo_env_def)

lemma demo_dock_simple:
  "dock_simple demo_env (p, False) w =
     (Inr [''-12.500'', ''-31.250'', ''250.125'', ''104.000''],
      w\<lparr>trace := trace w @ [MakeProtocol, DnaScore, FaScore, DockingApply, DnaScore, FaScore]\<rparr>)"
  by (simp add: dock_simple_def seq_def call_def ret_def demo_make_protocol demo_dna_score
      demo_fa_score demo_docking_apply)

lemma demo_dock_one_simple:
  assumes "os_path_join demo_env [path_to_pdbs, program, ''4UN3.'' @ variant @ ''.pdb''] \<noteq> []"
  shows "\<exists>w'. dock_one dc demo_env path_to_scores path_to_pdbs (PyBool False) variant program ds w =
     (Inr (Some [''-12.500'', ''-31.250'', ''250.125'', ''104.000'']), w')"
  using assms
  by (simp add: dock_one_def Let_def seq_def print_def call_def ret_def truthy_def demo_time
      demo_load demo_dock_simple write_dock_stats_ok [OF demo_open])

lemma demo_path_3dna:
  "os_path_join demo_env [[], ''3DNA'', ''4UN3.'' @ ''cgt'' @ ''.pdb''] = ''3DNA/4UN3.cgt.pdb''"
  by (simp add: demo_env_def posix_join_def posix_join2_def)

lemma demo_variant_27: "(variant_of 27 :: string error + string) = Inr ''cgt''"
  by (simp add: variant_of_def py_index_def dna_nts_def)

lemma demo_dock_variants:
  "\<exists>w'. dock_variants demo_env [27] ''out'' [] (PyBool False) demo_world = (Inr (), w')"
proof -
  let ?S = "Some [''-12.500'', ''-31.250'', ''250.125'', ''104.000'']"
  have p1: "os_path_join demo_env [[], ''Chimera'', ''4UN3.'' @ ''cgt'' @ ''.pdb''] \<noteq> []"
    by (simp only: demo_path) simp
  have p2: "os_path_join demo_env [[], ''3DNA'', ''4UN3.'' @ ''cgt'' @ ''.pdb''] \<noteq> []"
    by (simp only: demo_path_3dna) simp
  obtain w1 where s1: "dock_one (dock_complex demo_env) demo_env ''out'' [] (PyBool False) ''cgt''
      ''Chimera'' None demo_world = (Inr ?S, w1)"
    using demo_dock_one_simple [OF p1] by blast
  obtain w2 where s2: "dock_one (dock_complex demo_env) demo_env ''out'' [] (PyBool False) ''cgt''
      ''3DNA'' ?S w1 = (Inr ?S, w2)"
    using demo_dock_one_simple [OF p2] by blast
  have "dock_variants demo_env [27] ''out'' [] (PyBool False) demo_world = (Inr (), w2)"
    by (simp add: dock_variants_def dock_variants_with_def seq_def lift_def demo_variant_27
        programs_def s1 s2 ret_def)
  then show ?thesis by blast
qed

section \<open>The exceptions of a run\<close>

lemma dock_one_Inl:
  assumes "dock_one (dock_complex env) env path_to_scores path_to_pdbs flag variant program ds w = (Inl e, w')"
  shows "is_external e \<or>
         (truthy flag \<and> (e = NameError ''exception'' \<or> e = Raised ''Complex docking not implemented'' \<or>
            e = TypeError))"
proof (cases "truthy flag")
  case True
  show ?thesis
    using assms unfolding dock_one_def Let_def
    apply (simp add: True seq_print)
    apply (elim seq_InlE seq_InrE)
    apply (auto simp: call_eq_Inl_iff call_eq_Inr_iff ret_def is_external_def True
        dest!: dock_complex_Inl)
    done
next
  case False
  show ?thesis
    using assms unfolding dock_one_def Let_def
    apply (simp add: False seq_print)
    apply (elim seq_InlE seq_InrE)
    apply (auto simp: call_eq_Inl_iff call_eq_Inr_iff ret_def print_def is_external_def
        dest!: dock_simple_Inl dock_simple_Inr write_dock_stats_Inl)
    done
qed

lemma dock_programs_Inl:
  assumes "dock_programs (dock_complex env) env path_to_scores path_to_pdbs flag variant progs ds w = (Inl e, w')"
  shows "is_external e \<or>
         (truthy flag \<and> (e = NameError ''exception'' \<or> e = Raised ''Complex docking not implemented'' \<or>
            e = TypeError))"
  using assms
proof (induction progs arbitrary: ds w)
  case Nil
  then show ?case by (simp add: ret_def)
next
  case (Cons program rest)
  from Cons.prems show ?case
  proof (simp, elim seq_InlE)
    assume "dock_one (dock_complex env) env path_to_scores path_to_pdbs flag variant program ds w = (Inl e, w')"
    then show ?thesis by (rule dock_one_Inl)
  next
    fix a w1
    assume "dock_programs (dock_complex env) env path_to_scores path_to_pdbs flag variant rest a w1 = (Inl e, w')"
    then show ?thesis by (rule Cons.IH)
  qed
qed

lemma dock_loop_Cons_Inl:
  fixes env :: "('x, 'e, 'pose, 'f) env"
  assumes "dock_loop dc env path_to_scores path_to_pdbs flag (i # rest) ds w = (Inl e, w')"
    and "(variant_of i :: 'e error + string) = Inr variant"
  obtains "dock_programs dc env path_to_scores path_to_pdbs flag variant programs ds w = (Inl e, w')"
  | ds1 w1 where
      "dock_programs dc env path_to_scores path_to_pdbs flag variant programs ds w = (Inr ds1, w1)"
      "dock_loop dc env path_to_scores path_to_pdbs flag rest ds1 w1 = (Inl e, w')"
  using assms by (auto simp: seq_def lift_def split: prod.splits sum.splits)

lemma dock_loop_Inl:
  fixes env :: "('x, 'e, 'pose, 'f) env"
  assumes "dock_loop (dock_complex env) env path_to_scores path_to_pdbs flag pam ds w = (Inl e, w')"
    and "\<forall>i \<in> set pam. 0 \<le> i \<and> i \<le> 63"
  shows "is_external e \<or>
         (truthy flag \<and> (e = NameError ''exception'' \<or> e = Raised ''Complex docking not implemented'' \<or>
            e = TypeError))"
  using assms
proof (induction pam arbitrary: ds w)
  case Nil
  then show ?case by (simp add: ret_def)
next
  case (Cons i rest)
  have r: "0 \<le> i" "i \<le> 63" using Cons.prems(2) by simp_all
  have v: "(variant_of i :: 'e error + string) =
      Inr [dna_nts ! nat (i div 16), dna_nts ! nat (i div 4 mod 4), dna_nts ! nat (i mod 4)]"
    using r by (rule variant_of_digits)
  have rest: "\<forall>i \<in> set rest. 0 \<le> i \<and> i \<le> 63" using Cons.prems(2) by simp
  from Cons.prems(1) v show ?case
  proof (cases rule: dock_loop_Cons_Inl)
    case 1
    then show ?thesis by (rule dock_programs_Inl)
  next
    case (2 ds1 w1)
    from 2(2) rest show ?thesis by (rule Cons.IH)
  qed
qed

section \<open>The entry point, from the range check on\<close>

lemma loaded_paths_single:
  "loaded_paths [ev] = (case ev of PoseFromPdb p \<Rightarrow> [p] | _ \<Rightarrow> [])"
  by (simp add: loaded_paths_def)

lemma loaded_paths_Cons:
  "loaded_paths (ev # tr) = (case ev of PoseFromPdb p \<Rightarrow> [p] | _ \<Rightarrow> []) @ loaded_paths tr"
  by (simp add: loaded_paths_def)

lemma call_csv_Inl:
  assumes "call_csv env path w = (Inl e, w')"
  shows "is_external e"
  using assms by (auto simp: call_csv_def is_external_def split: prod.splits sum.splits)

lemma call_csv_Inr:
  assumes "call_csv env path w = (Inr u, w')"
  shows "trace w' = trace w @ [ResultsToCsv path]"
  using assms by (auto simp: call_csv_def split: prod.splits sum.splits)

lemma dock_variants_Inl:
  fixes env :: "('x, 'e, 'pose, 'f) env"
  assumes "dock_variants env pam path_to_scores path_to_pdbs flag w = (Inl e, w')"
    and "\<forall>i \<in> set pam. 0 \<le> i \<and> i \<le> 63"
  shows "is_external e \<or>
         (truthy flag \<and> (e = NameError ''exception'' \<or> e = Raised ''Complex docking not implemented'' \<or>
            e = TypeError))"
  using assms unfolding dock_variants_def dock_variants_with_def by (rule dock_loop_Inl)

lemma score_variants_Inl:
  fixes env :: "('x, 'e, 'pose, 'f) env"
  assumes "score_variants env a pam w = (Inl e, w')"
    and "\<forall>i \<in> set pam. 0 \<le> i \<and> i \<le> 63"
  shows "is_external e \<or>
         (truthy (arg_complex a) \<and> (e = NameError ''exception'' \<or>
            e = Raised ''Complex docking not implemented'' \<or> e = TypeError))"
  using assms(1) unfolding score_variants_def
  apply (elim seq_InlE seq_InrE)
  apply (auto simp: call_eq_Inl_iff call_eq_Inr_iff ret_def is_external_def seq_eq_Inl_iff
      split: option.splits if_splits dest: call_csv_Inl dock_variants_Inl [OF _ assms(2)])
  done

lemma score_variants_Inr:
  fixes env :: "('x, 'e, 'pose, 'f) env"
  assumes "score_variants env a pam w = (Inr u, w')"
  shows "loaded_paths (trace w') = loaded_paths (trace w) @
     concat (map (\<lambda>i. map (\<lambda>program. os_path_join env
         [arg_pdb_dir a, program, ''4UN3.'' @ projr (variant_of i :: 'e error + string) @ ''.pdb''])
       programs) pam)"
  using assms unfolding score_variants_def
  apply (elim seq_InrE)
  apply (auto simp: call_eq_Inr_iff ret_def seq_eq_Inr_iff loaded_paths_append loaded_paths_single
      loaded_paths_Cons loaded_paths_Nil loaded_paths_variants
      split: option.splits if_splits dest!: call_csv_Inr dock_variants_Inr)
  done

lemma range_ok_iff:
  "range_ok (parse_args c) \<longleftrightarrow>
     (\<exists>s e. opt_start c = Some s \<and> opt_end c = Some e \<and> 0 \<le> s \<and> s \<le> e \<and> e \<le> 63)"
proof (cases "opt_start c")
  case None
  then show ?thesis by (simp add: range_ok_def parse_args_def)
next
  case (Some s)
  then show ?thesis
    by (cases "opt_end c") (simp_all add: range_ok_def parse_args_def)
qed

lemma main_fails:
  assumes "\<not> range_ok (parse_args c)"
  shows "main env c w = (Inl AssertionError, w)"
  using assms by (simp add: main_def Let_def raise_def)

lemma main_runs:
  assumes "opt_start c = Some s" "opt_end c = Some e" "0 \<le> s" "s \<le> e" "e \<le> 63"
  shows "main env c w = score_variants env (parse_args c) [s..e] w"
proof -
  have "range_ok (parse_args c)" using assms by (simp add: range_ok_iff)
  moreover have "arg_start (parse_args c) = Some s" "arg_end (parse_args c) = Some e"
    using assms(1,2) by (simp_all add: parse_args_def)
  ultimately show ?thesis by (simp add: main_def Let_def py_range_def)
qed

text \<open>
  C6. The entry point checks \<open>0 \<le> start \<le> end \<le> 63\<close> first. When the check fails
  (an option missing, \<open>start > end\<close>, or a value outside \<open>0..63\<close>) the script ends with
  an assertion failure and the world is as before: nothing docked, no directory made, no
  file written. When it holds, the variants scored are the integers from \<open>start\<close> to
  \<open>end\<close> inclusive, and a run that returns has loaded the structures of exactly these.
\<close>

theorem main_range_check:
  fixes env :: "('x, 'e, 'pose, 'f) env"
  shows "(range_ok (parse_args c) \<longleftrightarrow>
       (\<exists>s e. opt_start c = Some s \<and> opt_end c = Some e \<and> 0 \<le> s \<and> s \<le> e \<and> e \<le> 63))
    \<and> (\<not> range_ok (parse_args c) \<longrightarrow> main env c w = (Inl AssertionError, w))
    \<and> (\<forall>s e. opt_start c = Some s \<and> opt_end c = Some e \<and> 0 \<le> s \<and> s \<le> e \<and> e \<le> 63 \<longrightarrow>
          main env c w = score_variants env (parse_args c) [s..e] w \<and>
          set [s..e] = {i. s \<le> i \<and> i \<le> e} \<and> distinct [s..e] \<and>
          (\<forall>w'. main env c w = (Inr (), w') \<longrightarrow>
             loaded_paths (trace w') = loaded_paths (trace w) @
               concat (map (\<lambda>i. map (\<lambda>program. os_path_join env
                   [arg_pdb_dir (parse_args c), program,
                    ''4UN3.'' @ projr (variant_of i :: 'e error + string) @ ''.pdb''])
                 programs) [s..e])))"
proof (intro conjI allI impI)
  show "range_ok (parse_args c) \<longleftrightarrow>
       (\<exists>s e. opt_start c = Some s \<and> opt_end c = Some e \<and> 0 \<le> s \<and> s \<le> e \<and> e \<le> 63)"
    by (rule range_ok_iff)
next
  assume "\<not> range_ok (parse_args c)"
  then show "main env c w = (Inl AssertionError, w)" by (rule main_fails)
next
  fix s e
  assume h: "opt_start c = Some s \<and> opt_end c = Some e \<and> 0 \<le> s \<and> s \<le> e \<and> e \<le> 63"
  then show m: "main env c w = score_variants env (parse_args c) [s..e] w"
    by (intro main_runs) simp_all
  show "set [s..e] = {i. s \<le> i \<and> i \<le> e}" by auto
  show "distinct [s..e]" by simp
  fix w'
  assume "main env c w = (Inr (), w')"
  then have "score_variants env (parse_args c) [s..e] w = (Inr (), w')" by (simp only: m)
  then show "loaded_paths (trace w') = loaded_paths (trace w) @
               concat (map (\<lambda>i. map (\<lambda>program. os_path_join env
                   [arg_pdb_dir (parse_args c), program,
                    ''4UN3.'' @ projr (variant_of i :: 'e error + string) @ ''.pdb''])
                 programs) [s..e])"
    by (rule score_variants_Inr)
qed

text \<open>
  C7, as stated, fails: the assertion of the entry point raises an exception that no
  external call raised.
\<close>

theorem own_exception_counterexample:
  "main demo_env (demo_cmdline\<lparr>opt_start := Some 5, opt_end := Some 3\<rparr>) demo_world =
     (Inl AssertionError, demo_world)
   \<and> \<not> is_external (AssertionError :: string error)"
  by (simp add: main_def Let_def raise_def range_ok_def parse_args_def demo_cmdline_def is_external_def)

text \<open>
  C7, amended. The script defines no exception class of its own, and every exception of a
  run is one of three kinds: the \<open>AssertionError\<close> of the range check, raised before
  anything else is done; the exception of the \<open>raise\<close> statement of \<open>dock_complex\<close>,
  when complex docking is selected; or an exception that an external call raised and the
  script lets through.
\<close>

theorem main_exceptions:
  fixes env :: "('x, 'e, 'pose, 'f) env"
  assumes "main env c w = (Inl e, w')"
  shows "(e = AssertionError \<and> \<not> range_ok (parse_args c) \<and> w' = w)
    \<or> (truthy (arg_complex (parse_args c)) \<and>
        (e = NameError ''exception'' \<or> e = Raised ''Complex docking not implemented'' \<or> e = TypeError))
    \<or> is_external e"
proof (cases "range_ok (parse_args c)")
  case False
  then show ?thesis using assms main_fails [OF False, of env w] by simp
next
  case True
  then obtain s e0 where h: "opt_start c = Some s" "opt_end c = Some e0" "0 \<le> s" "s \<le> e0" "e0 \<le> 63"
    unfolding range_ok_iff by blast
  have "score_variants env (parse_args c) [s..e0] w = (Inl e, w')"
    using assms main_runs [OF h, of env w] by simp
  moreover have "\<forall>i \<in> set [s..e0]. 0 \<le> i \<and> i \<le> 63" using h by auto
  ultimately have "is_external e \<or>
         (truthy (arg_complex (parse_args c)) \<and> (e = NameError ''exception'' \<or>
            e = Raised ''Complex docking not implemented'' \<or> e = TypeError))"
    by (rule score_variants_Inl)
  then show ?thesis by blast
qed

section \<open>Two runs of the script\<close>

lemma demo_exists: "os_path_exists demo_env p x = False"
  by (simp add: demo_env_def)

lemma demo_makedirs: "os_makedirs demo_env p x = (Inr (), x)"
  by (simp add: demo_env_def)

lemma demo_init: "rosetta_init demo_env x = (Inr (), x)"
  by (simp add: demo_env_def)

lemma demo_args:
  "arg_output_dir (parse_args (demo_cmdline\<lparr>opt_complex := sw\<rparr>)) = Some ''out''"
  "arg_pdb_dir (parse_args (demo_cmdline\<lparr>opt_complex := sw\<rparr>)) = []"
  "arg_complex (parse_args (demo_cmdline\<lparr>opt_complex := sw\<rparr>)) = switch_value sw"
  "arg_csv (parse_args (demo_cmdline\<lparr>opt_complex := sw\<rparr>)) = PyBool False"
  "opt_start (demo_cmdline\<lparr>opt_complex := sw\<rparr>) = Some 27"
  "opt_end (demo_cmdline\<lparr>opt_complex := sw\<rparr>) = Some 27"
  by (simp_all add: parse_args_def demo_cmdline_def switch_value_def)

lemma demo_dock_variants_simple:
  assumes "dock_variants demo_env [27] ''out'' [] (PyBool False) w = (r, w')"
  shows "r = Inr ()"
proof -
  let ?S = "Some [''-12.500'', ''-31.250'', ''250.125'', ''104.000'']"
  have p1: "os_path_join demo_env [[], ''Chimera'', ''4UN3.'' @ ''cgt'' @ ''.pdb''] \<noteq> []"
    by (simp only: demo_path) simp
  have p2: "os_path_join demo_env [[], ''3DNA'', ''4UN3.'' @ ''cgt'' @ ''.pdb''] \<noteq> []"
    by (simp only: demo_path_3dna) simp
  obtain w1 where s1: "dock_one (dock_complex demo_env) demo_env ''out'' [] (PyBool False) ''cgt''
      ''Chimera'' None w = (Inr ?S, w1)"
    using demo_dock_one_simple [OF p1] by blast
  obtain w2 where s2: "dock_one (dock_complex demo_env) demo_env ''out'' [] (PyBool False) ''cgt''
      ''3DNA'' ?S w1 = (Inr ?S, w2)"
    using demo_dock_one_simple [OF p2] by blast
  have "dock_variants demo_env [27] ''out'' [] (PyBool False) w = (Inr (), w2)"
    by (simp add: dock_variants_def dock_variants_with_def seq_def lift_def demo_variant_27
        programs_def s1 s2 ret_def)
  then show ?thesis using assms by simp
qed

lemma demo_dock_variants_complex:
  assumes "dock_variants demo_env [27] ''out'' [] (PyBool True) w = (r, w')"
  shows "r = Inl (NameError ''exception'')"
proof -
  have "\<exists>w1. dock_one (dock_complex demo_env) demo_env ''out'' [] (PyBool True) ''cgt''
      ''Chimera'' None w = (Inl (NameError ''exception''), w1)"
    unfolding dock_one_def Let_def demo_path
    by (simp add: seq_def print_def call_def demo_time demo_load demo_dock_complex truthy_def)
  then obtain w1 where s1: "dock_one (dock_complex demo_env) demo_env ''out'' [] (PyBool True) ''cgt''
      ''Chimera'' None w = (Inl (NameError ''exception''), w1)"
    by blast
  have "dock_variants demo_env [27] ''out'' [] (PyBool True) w = (Inl (NameError ''exception''), w1)"
    by (simp add: dock_variants_def dock_variants_with_def seq_def lift_def demo_variant_27
        programs_def s1)
  then show ?thesis using assms by simp
qed

lemma demo_score_variants:
  assumes "sw = Absent \<or> sw = Bare"
  shows "\<exists>w'. score_variants demo_env (parse_args (demo_cmdline\<lparr>opt_complex := sw\<rparr>)) [27] demo_world =
     (if sw = Absent then Inr () else Inl (NameError ''exception''), w')"
  using assms
  by (auto simp: score_variants_def demo_args seq_def ret_def call_def demo_exists demo_makedirs
      demo_init switch_value_def truthy_def
      split: prod.splits sum.splits
      dest: demo_dock_variants_simple demo_dock_variants_complex)

lemma demo_main:
  assumes "sw = Absent \<or> sw = Bare"
  shows "\<exists>w'. main demo_env (demo_cmdline\<lparr>opt_complex := sw\<rparr>) demo_world =
     (if sw = Absent then Inr () else Inl (NameError ''exception''), w')"
proof -
  have "main demo_env (demo_cmdline\<lparr>opt_complex := sw\<rparr>) demo_world =
      score_variants demo_env (parse_args (demo_cmdline\<lparr>opt_complex := sw\<rparr>)) [27..27] demo_world"
    by (rule main_runs) (simp_all add: demo_args)
  then show ?thesis using demo_score_variants [OF assms] by simp
qed

theorem main_range_check_witness:
  "\<not> range_ok (parse_args (demo_cmdline\<lparr>opt_start := Some 27, opt_end := Some 64\<rparr>))
   \<and> main demo_env (demo_cmdline\<lparr>opt_start := Some 27, opt_end := Some 64\<rparr>) demo_world =
       (Inl AssertionError, demo_world)
   \<and> opt_start demo_cmdline = Some 27 \<and> opt_end demo_cmdline = Some 27
   \<and> (\<exists>w'. main demo_env demo_cmdline demo_world = (Inr (), w') \<and>
        loaded_paths (trace w') = [''Chimera/4UN3.cgt.pdb'', ''3DNA/4UN3.cgt.pdb''])"
proof -
  let ?bad = "demo_cmdline\<lparr>opt_start := Some 27, opt_end := Some 64\<rparr>"
  have b: "\<not> range_ok (parse_args ?bad)"
    by (simp add: range_ok_def parse_args_def)
  have "\<not> range_ok (parse_args ?bad) \<longrightarrow> main demo_env ?bad demo_world = (Inl AssertionError, demo_world)"
    using main_range_check [of ?bad demo_env demo_world] by blast
  then have f: "main demo_env ?bad demo_world = (Inl AssertionError, demo_world)" using b by blast
  have se: "opt_start demo_cmdline = Some 27" "opt_end demo_cmdline = Some 27"
    by (simp_all add: demo_cmdline_def)
  have c: "demo_cmdline\<lparr>opt_complex := Absent\<rparr> = demo_cmdline" by (simp add: demo_cmdline_def)
  obtain w' where r: "main demo_env demo_cmdline demo_world = (Inr (), w')"
    using demo_main [of Absent] by (auto simp: c)
  have "\<forall>s e. opt_start demo_cmdline = Some s \<and> opt_end demo_cmdline = Some e \<and>
          0 \<le> s \<and> s \<le> e \<and> e \<le> 63 \<longrightarrow>
          (\<forall>w'. main demo_env demo_cmdline demo_world = (Inr (), w') \<longrightarrow>
             loaded_paths (trace w') = loaded_paths (trace demo_world) @
               concat (map (\<lambda>i. map (\<lambda>program. os_path_join demo_env
                   [arg_pdb_dir (parse_args demo_cmdline), program,
                    ''4UN3.'' @ projr (variant_of i :: string error + string) @ ''.pdb''])
                 programs) [s..e]))"
    using main_range_check [of demo_cmdline demo_env demo_world] by blast
  then have "loaded_paths (trace w') = loaded_paths (trace demo_world) @
               concat (map (\<lambda>i. map (\<lambda>program. os_path_join demo_env
                   [arg_pdb_dir (parse_args demo_cmdline), program,
                    ''4UN3.'' @ projr (variant_of i :: string error + string) @ ''.pdb''])
                 programs) [27..27])"
    using se r by simp
  then have "loaded_paths (trace w') = [''Chimera/4UN3.cgt.pdb'', ''3DNA/4UN3.cgt.pdb'']"
    using demo_args(2) [of Absent]
    by (simp add: c programs_def demo_variant_27 demo_env_def posix_join_def posix_join2_def
        demo_world_def loaded_paths_Nil)
  then show ?thesis using b f se r by blast
qed

theorem main_exceptions_witness:
  "(\<exists>w'. main demo_env (demo_cmdline\<lparr>opt_complex := Bare\<rparr>) demo_world =
       (Inl (NameError ''exception''), w'))
   \<and> truthy (arg_complex (parse_args (demo_cmdline\<lparr>opt_complex := Bare\<rparr>)))
   \<and> \<not> is_external (NameError ''exception'' :: string error)"
proof -
  let ?c = "demo_cmdline\<lparr>opt_complex := Bare\<rparr>"
  obtain w' where r: "main demo_env ?c demo_world = (Inl (NameError ''exception''), w')"
    using demo_main [of Bare] by auto
  have n: "\<not> is_external (NameError ''exception'' :: string error)"
    by (simp add: is_external_def)
  from main_exceptions [OF r] n
  have "truthy (arg_complex (parse_args ?c))" by auto
  then show ?thesis using r n by blast
qed

section \<open>Complex docking selected\<close>

text \<open>
  C9. With a true \<open>complex_docking_flag\<close> and a non-empty list of variants,
  \<open>dock_variants\<close> raises on the first variant and program and no file is written: the
  result is that of the loop body for the first variant and \<open>Chimera\<close>, which ends before
  \<open>write_dock_stats\<close>. The same holds for any function \<open>dc\<close> in the place of
  \<open>dock_complex\<close> that writes no file: when \<open>dc\<close> raises, its exception is the result,
  and when it returns, its value is dropped and reading \<open>dock_stats\<close> raises.
\<close>

theorem dock_variants_complex_raises:
  fixes env :: "('x, 'e, 'pose, 'f) env"
  assumes "truthy flag"
    and "pam_variants \<noteq> []"
  shows "(\<exists>e w'.
      dock_variants env pam_variants path_to_scores path_to_pdbs flag w = (Inl e, w') \<and>
      files w' = files w \<and>
      (case (variant_of (hd pam_variants) :: 'e error + string) of
         Inl e0 \<Rightarrow> e = IndexError \<and> w' = w
       | Inr variant \<Rightarrow>
           dock_one (dock_complex env) env path_to_scores path_to_pdbs flag variant ''Chimera'' None w
             = (Inl e, w') \<and>
           (is_external e \<or> e = NameError ''exception'' \<or>
            e = Raised ''Complex docking not implemented'' \<or> e = TypeError)))
    \<and> (\<forall>dc :: 'pose \<Rightarrow> ('f list, 'x, 'e) prog.
         (\<forall>pose w. files (snd (dc pose w)) = files w) \<longrightarrow>
         (\<exists>e w'.
            dock_variants_with dc env pam_variants path_to_scores path_to_pdbs flag w = (Inl e, w') \<and>
            files w' = files w \<and>
            (case (variant_of (hd pam_variants) :: 'e error + string) of
               Inl e0 \<Rightarrow> e = IndexError \<and> w' = w
             | Inr variant \<Rightarrow>
                 dock_one dc env path_to_scores path_to_pdbs flag variant ''Chimera'' None w
                   = (Inl e, w') \<and>
                 (is_external e \<or> (\<exists>pose w1 w2. dc pose w1 = (Inl e, w2)) \<or>
                  e = UnboundLocalError ''dock_stats''))))"
proof (intro conjI allI impI)
  have cf: "\<forall>pose w. files (snd (dock_complex env pose w)) = files w"
    by (simp add: dock_complex_files)
  from dock_variants_with_complex [OF assms cf, of env path_to_scores path_to_pdbs w]
  obtain e w' where
    r: "dock_variants env pam_variants path_to_scores path_to_pdbs flag w = (Inl e, w')"
    and f: "files w' = files w"
    and c: "(case (variant_of (hd pam_variants) :: 'e error + string) of
         Inl e0 \<Rightarrow> e = IndexError \<and> w' = w
       | Inr variant \<Rightarrow>
           dock_one (dock_complex env) env path_to_scores path_to_pdbs flag variant ''Chimera'' None w
             = (Inl e, w') \<and>
           (is_external e \<or> (\<exists>pose w1 w2. dock_complex env pose w1 = (Inl e, w2)) \<or>
            e = UnboundLocalError ''dock_stats''))"
    unfolding dock_variants_def by blast
  have "case (variant_of (hd pam_variants) :: 'e error + string) of
         Inl e0 \<Rightarrow> e = IndexError \<and> w' = w
       | Inr variant \<Rightarrow>
           dock_one (dock_complex env) env path_to_scores path_to_pdbs flag variant ''Chimera'' None w
             = (Inl e, w') \<and>
           (is_external e \<or> e = NameError ''exception'' \<or>
            e = Raised ''Complex docking not implemented'' \<or> e = TypeError)"
  proof (cases "variant_of (hd pam_variants) :: 'e error + string")
    case (Inl e0)
    then show ?thesis using c by simp
  next
    case (Inr variant)
    then have b: "dock_one (dock_complex env) env path_to_scores path_to_pdbs flag variant ''Chimera''
        None w = (Inl e, w')"
      using c by simp
    from dock_one_Inl [OF b] show ?thesis using Inr b by auto
  qed
  with r f show "\<exists>e w'.
      dock_variants env pam_variants path_to_scores path_to_pdbs flag w = (Inl e, w') \<and>
      files w' = files w \<and>
      (case (variant_of (hd pam_variants) :: 'e error + string) of
         Inl e0 \<Rightarrow> e = IndexError \<and> w' = w
       | Inr variant \<Rightarrow>
           dock_one (dock_complex env) env path_to_scores path_to_pdbs flag variant ''Chimera'' None w
             = (Inl e, w') \<and>
           (is_external e \<or> e = NameError ''exception'' \<or>
            e = Raised ''Complex docking not implemented'' \<or> e = TypeError))"
    by blast
next
  fix dc :: "'pose \<Rightarrow> ('f list, 'x, 'e) prog"
  assume "\<forall>pose w. files (snd (dc pose w)) = files w"
  with assms show "\<exists>e w'.
            dock_variants_with dc env pam_variants path_to_scores path_to_pdbs flag w = (Inl e, w') \<and>
            files w' = files w \<and>
            (case (variant_of (hd pam_variants) :: 'e error + string) of
               Inl e0 \<Rightarrow> e = IndexError \<and> w' = w
             | Inr variant \<Rightarrow>
                 dock_one dc env path_to_scores path_to_pdbs flag variant ''Chimera'' None w
                   = (Inl e, w') \<and>
                 (is_external e \<or> (\<exists>pose w1 w2. dc pose w1 = (Inl e, w2)) \<or>
                  e = UnboundLocalError ''dock_stats''))"
    by (rule dock_variants_with_complex)
qed

theorem dock_variants_complex_raises_witness:
  "truthy (PyStr ''False'') \<and> [27, 28] \<noteq> ([] :: int list) \<and>
   (\<exists>w'. dock_variants demo_env [27, 28] ''out'' [] (PyStr ''False'') demo_world =
       (Inl (NameError ''exception''), w') \<and> files w' = files demo_world)"
proof -
  have h1: "truthy (PyStr ''False'')" by (simp add: truthy_def)
  have h2: "[27, 28] \<noteq> ([] :: int list)" by simp
  have v: "(variant_of (hd [27, 28]) :: string error + string) = Inr ''cgt''"
    by (simp add: variant_of_def py_index_def dna_nts_def)
  from dock_variants_complex_raises [OF h1 h2, of demo_env "''out''" "[]" demo_world]
  obtain e w' where
    r: "dock_variants demo_env [27, 28] ''out'' [] (PyStr ''False'') demo_world = (Inl e, w')"
    and f: "files w' = files demo_world"
    and c: "(case (variant_of (hd [27, 28]) :: string error + string) of
         Inl e0 \<Rightarrow> e = IndexError \<and> w' = demo_world
       | Inr variant \<Rightarrow>
           dock_one (dock_complex demo_env) demo_env ''out'' [] (PyStr ''False'') variant ''Chimera''
             None demo_world = (Inl e, w') \<and>
           (is_external e \<or> e = NameError ''exception'' \<or>
            e = Raised ''Complex docking not implemented'' \<or> e = TypeError))"
    by blast
  from c have "dock_one (dock_complex demo_env) demo_env ''out'' [] (PyStr ''False'') ''cgt'' ''Chimera''
             None demo_world = (Inl e, w')"
    by (simp only: v sum.case)
  then have "e = NameError ''exception''" by (simp only: demo_one_complex prod.inject sum.inject)
  with r f h1 h2 show ?thesis by blast
qed

lemma dock_one_simple_report:
  assumes "\<not> truthy flag"
    and "dock_one dc env path_to_scores path_to_pdbs flag variant program ds w = (Inr ds', w')"
  shows "\<exists>text. scored_report env (pdb_path_of env path_to_pdbs (variant, program)) text \<and>
           files w' = append_file (files w) (result_path_of env path_to_scores (variant, program), text)"
  using assms(2) unfolding dock_one_def Let_def
  apply (simp add: assms(1))
  apply (elim seq_InrE)
  apply (clarsimp simp: call_eq_Inr_iff ret_def print_def split: option.splits)
  apply (frule write_dock_stats_Inr)
  apply (frule dock_simple_Inr)
  subgoal for time_init pose w3 time_final w5 stats x1 x2 x4
    apply (rule exI [of _ "unlines (report env stats (fsub env time_final time_init))"])
    apply (rule conjI)
     apply (simp add: scored_report_def pdb_path_of_def)
     apply blast
    apply (simp add: append_file_def content_def result_path_of_def)
    done
  done

section \<open>The result files of a run that returns\<close>

lemma foldl_append_file_zip:
  assumes "length ps = length ts"
  shows "foldl append_file fs (zip (ps @ qs) (ts @ us)) =
         foldl append_file (foldl append_file fs (zip ps ts)) (zip qs us)"
  using assms by simp

lemma dock_programs_simple_reports:
  assumes "\<not> truthy flag"
    and "dock_programs dc env path_to_scores path_to_pdbs flag variant progs ds w = (Inr ds', w')"
  shows "\<exists>texts.
      list_all2 (\<lambda>vp text. scored_report env (pdb_path_of env path_to_pdbs vp) text)
        (map (Pair variant) progs) texts \<and>
      files w' = foldl append_file (files w)
        (zip (map (result_path_of env path_to_scores) (map (Pair variant) progs)) texts)"
  using assms(2)
proof (induction progs arbitrary: ds w)
  case Nil
  then show ?case by (simp add: ret_def)
next
  case (Cons program rest)
  from Cons.prems obtain ds1 w1 where
    one: "dock_one dc env path_to_scores path_to_pdbs flag variant program ds w = (Inr ds1, w1)"
    and more: "dock_programs dc env path_to_scores path_to_pdbs flag variant rest ds1 w1 = (Inr ds', w')"
    by (auto elim: seq_InrE)
  from dock_one_simple_report [OF assms(1) one] obtain rep where
    t: "scored_report env (pdb_path_of env path_to_pdbs (variant, program)) rep"
    and f: "files w1 = append_file (files w) (result_path_of env path_to_scores (variant, program), rep)"
    by blast
  from Cons.IH [OF more] obtain texts where
    ts: "list_all2 (\<lambda>vp text. scored_report env (pdb_path_of env path_to_pdbs vp) text)
        (map (Pair variant) rest) texts"
    and fs: "files w' = foldl append_file (files w1)
        (zip (map (result_path_of env path_to_scores) (map (Pair variant) rest)) texts)"
    by blast
  have "list_all2 (\<lambda>vp text. scored_report env (pdb_path_of env path_to_pdbs vp) text)
        (map (Pair variant) (program # rest)) (rep # texts)"
    using t ts by simp
  moreover have "files w' = foldl append_file (files w)
        (zip (map (result_path_of env path_to_scores) (map (Pair variant) (program # rest)))
           (rep # texts))"
    using f fs by simp
  ultimately show ?case by blast
qed

lemma dock_loop_simple_reports:
  fixes env :: "('x, 'e, 'pose, 'f) env"
  assumes "\<not> truthy flag"
    and "dock_loop dc env path_to_scores path_to_pdbs flag pam ds w = (Inr u, w')"
  shows "\<exists>texts.
      list_all2 (\<lambda>vp text. scored_report env (pdb_path_of env path_to_pdbs vp) text)
        (combinations (map (\<lambda>i. projr (variant_of i :: 'e error + string)) pam)) texts \<and>
      files w' = foldl append_file (files w)
        (zip (map (result_path_of env path_to_scores)
               (combinations (map (\<lambda>i. projr (variant_of i :: 'e error + string)) pam))) texts)"
  using assms(2)
proof (induction pam arbitrary: ds w)
  case Nil
  then show ?case by (simp add: ret_def combinations_def)
next
  case (Cons i rest)
  let ?vs = "map (\<lambda>i. projr (variant_of i :: 'e error + string)) rest"
  from Cons.prems obtain variant ds1 w1 where
    v: "(variant_of i :: 'e error + string) = Inr variant"
    and inner: "dock_programs dc env path_to_scores path_to_pdbs flag variant programs ds w = (Inr ds1, w1)"
    and more: "dock_loop dc env path_to_scores path_to_pdbs flag rest ds1 w1 = (Inr u, w')"
    by (auto elim!: seq_InrE simp: lift_def)
  from dock_programs_simple_reports [OF assms(1) inner] obtain texts1 where
    t1: "list_all2 (\<lambda>vp text. scored_report env (pdb_path_of env path_to_pdbs vp) text)
        (map (Pair variant) programs) texts1"
    and f1: "files w1 = foldl append_file (files w)
        (zip (map (result_path_of env path_to_scores) (map (Pair variant) programs)) texts1)"
    by blast
  from Cons.IH [OF more] obtain texts2 where
    t2: "list_all2 (\<lambda>vp text. scored_report env (pdb_path_of env path_to_pdbs vp) text)
        (combinations ?vs) texts2"
    and f2: "files w' = foldl append_file (files w1)
        (zip (map (result_path_of env path_to_scores) (combinations ?vs)) texts2)"
    by blast
  have c: "combinations (map (\<lambda>i. projr (variant_of i :: 'e error + string)) (i # rest)) =
      map (Pair variant) programs @ combinations ?vs"
    by (simp add: combinations_def v)
  have len: "length (map (result_path_of env path_to_scores) (map (Pair variant) programs)) =
      length texts1"
    using list_all2_lengthD [OF t1] by simp
  have "list_all2 (\<lambda>vp text. scored_report env (pdb_path_of env path_to_pdbs vp) text)
      (map (Pair variant) programs @ combinations ?vs) (texts1 @ texts2)"
    using t1 t2 by (rule list_all2_appendI)
  moreover have "files w' = foldl append_file (files w)
      (zip (map (result_path_of env path_to_scores) (map (Pair variant) programs @ combinations ?vs))
         (texts1 @ texts2))"
    unfolding map_append foldl_append_file_zip [OF len] f2 f1 ..
  ultimately show ?case unfolding c by blast
qed

lemma combinations_length: "length (combinations vs) = 2 * length vs"
  by (induction vs) (simp_all add: combinations_def programs_def)

text \<open>
  C4, as stated, fails: with a true \<open>complex_docking_flag\<close> the call raises while the
  first variant is processed for \<open>Chimera\<close>; \<open>3DNA\<close> is never reached and no result
  file is written.
\<close>

theorem dock_variants_complex_counterexample:
  "dock_variants demo_env [27] ''out'' [] (PyBool True) demo_world =
     (Inl (NameError ''exception''),
      \<lparr>ext = 1, files = Map.empty, stdout = [''Running for variant: cgt_Chimera''],
       trace = [Time, PoseFromPdb ''Chimera/4UN3.cgt.pdb'']\<rparr>)"
proof -
  have "dock_one (dock_complex demo_env) demo_env ''out'' [] (PyBool True) ''cgt'' ''Chimera'' None
     demo_world =
   (Inl (NameError ''exception''),
    \<lparr>ext = 1, files = Map.empty, stdout = [''Running for variant: cgt_Chimera''],
       trace = [Time, PoseFromPdb ''Chimera/4UN3.cgt.pdb'']\<rparr>)"
    unfolding dock_one_def Let_def demo_path
    by (simp add: seq_def print_def call_def demo_time demo_load
        demo_dock_complex truthy_def demo_world_def)
  then show ?thesis
    by (simp add: dock_variants_def dock_variants_with_def seq_def lift_def demo_variant_27
        programs_def)
qed

text \<open>
  C4, amended. In a call of \<open>dock_variants\<close> with a false \<open>complex_docking_flag\<close> that
  returns, every index of \<open>pam_variants\<close> is processed for exactly the two programs
  \<open>Chimera\<close> then \<open>3DNA\<close>: for each of them the structure is loaded from
  \<open>os.path.join(path_to_pdbs, program, '4UN3.' + variant + '.pdb')\<close> and the five-line
  report of its scores is appended to the result file \<open>variant + '_' + program + '.txt'\<close>
  in \<open>path_to_scores\<close>, two result files per variant; nothing else is written.
\<close>

theorem dock_variants_combinations:
  fixes env :: "('x, 'e, 'pose, 'f) env"
  assumes "\<not> truthy flag"
    and "dock_variants env pam_variants path_to_scores path_to_pdbs flag w = (Inr (), w')"
  shows "programs = [''Chimera'', ''3DNA'']
    \<and> (\<forall>i \<in> set pam_variants. \<exists>v. (variant_of i :: 'e error + string) = Inr v)
    \<and> trace w' = trace w @ concat (map (\<lambda>i. concat (map
         (combination_trace env path_to_scores path_to_pdbs
            (projr (variant_of i :: 'e error + string))) programs)) pam_variants)
    \<and> loaded_paths (trace w') = loaded_paths (trace w) @
         concat (map (\<lambda>i. map (\<lambda>program. os_path_join env
             [path_to_pdbs, program, ''4UN3.'' @ projr (variant_of i :: 'e error + string) @ ''.pdb''])
           programs) pam_variants)
    \<and> opened_paths (trace w') = opened_paths (trace w) @
         concat (map (\<lambda>i. map (\<lambda>program. os_path_join env
             [path_to_scores, projr (variant_of i :: 'e error + string) @ ''_'' @ program @ ''.txt''])
           programs) pam_variants)
    \<and> length (opened_paths (trace w')) = length (opened_paths (trace w)) + 2 * length pam_variants
    \<and> dom (files w') = dom (files w) \<union>
         (\<Union>i \<in> set pam_variants. (\<lambda>program. os_path_join env
             [path_to_scores, projr (variant_of i :: 'e error + string) @ ''_'' @ program @ ''.txt''])
           ` set programs)
    \<and> (\<exists>texts.
         length texts = 2 * length pam_variants \<and>
         list_all2 (\<lambda>vp text. scored_report env (pdb_path_of env path_to_pdbs vp) text)
           (combinations (map (\<lambda>i. projr (variant_of i :: 'e error + string)) pam_variants)) texts \<and>
         files w' = foldl append_file (files w)
           (zip (map (result_path_of env path_to_scores)
                  (combinations (map (\<lambda>i. projr (variant_of i :: 'e error + string)) pam_variants)))
              texts))"
proof -
  note r = dock_variants_Inr [OF assms(2)]
  have t: "trace w' = trace w @ concat (map (\<lambda>i. concat (map
         (combination_trace env path_to_scores path_to_pdbs
            (projr (variant_of i :: 'e error + string))) programs)) pam_variants)"
    using r by blast
  have l: "loaded_paths (trace w') = loaded_paths (trace w) @
         concat (map (\<lambda>i. map (\<lambda>program. os_path_join env
             [path_to_pdbs, program, ''4UN3.'' @ projr (variant_of i :: 'e error + string) @ ''.pdb''])
           programs) pam_variants)"
    unfolding t loaded_paths_append loaded_paths_variants ..
  have o: "opened_paths (trace w') = opened_paths (trace w) @
         concat (map (\<lambda>i. map (\<lambda>program. os_path_join env
             [path_to_scores, projr (variant_of i :: 'e error + string) @ ''_'' @ program @ ''.txt''])
           programs) pam_variants)"
    unfolding t opened_paths_append opened_paths_variants ..
  have n: "length (opened_paths (trace w')) = length (opened_paths (trace w)) + 2 * length pam_variants"
    unfolding o by (induction pam_variants) (simp_all add: programs_def)
  let ?cs = "combinations (map (\<lambda>i. projr (variant_of i :: 'e error + string)) pam_variants)"
  obtain texts where
    a: "list_all2 (\<lambda>vp text. scored_report env (pdb_path_of env path_to_pdbs vp) text) ?cs texts"
    and f: "files w' = foldl append_file (files w)
           (zip (map (result_path_of env path_to_scores) ?cs) texts)"
    using dock_loop_simple_reports [OF assms(1), of "dock_complex env" env path_to_scores path_to_pdbs
        pam_variants None w "()" w'] assms(2)
    unfolding dock_variants_def dock_variants_with_def by blast
  have "length texts = 2 * length pam_variants"
    using list_all2_lengthD [OF a] by (simp add: combinations_length)
  with a f have c: "\<exists>texts.
         length texts = 2 * length pam_variants \<and>
         list_all2 (\<lambda>vp text. scored_report env (pdb_path_of env path_to_pdbs vp) text) ?cs texts \<and>
         files w' = foldl append_file (files w)
           (zip (map (result_path_of env path_to_scores) ?cs) texts)"
    by blast
  have p: "programs = [''Chimera'', ''3DNA'']" by (rule programs_def)
  have v: "\<forall>i \<in> set pam_variants. \<exists>v. (variant_of i :: 'e error + string) = Inr v"
    using r by blast
  have d: "dom (files w') = dom (files w) \<union>
         (\<Union>i \<in> set pam_variants. (\<lambda>program. os_path_join env
             [path_to_scores, projr (variant_of i :: 'e error + string) @ ''_'' @ program @ ''.txt''])
           ` set programs)"
    using r by blast
  show ?thesis
    using p v t l o n d c by (intro conjI)
qed

lemma demo_scored_report:
  assumes "scored_report demo_env p rep"
  shows "rep = unlines (report demo_env [''-12.500'', ''-31.250'', ''250.125'', ''104.000''] ''2.500'')"
proof -
  from assms obtain x x' pose and wa wb :: "nat world" and stats time_init time_final where
    ld: "pose_from_pdb demo_env p x = (Inr pose, x')"
    and ds: "dock_simple demo_env pose wa = (Inr stats, wb)"
    and r: "rep = unlines (report demo_env stats (fsub demo_env time_final time_init))"
    unfolding scored_report_def by blast
  have "pose = (p, False)"
    using ld by (simp add: demo_env_def split: if_splits)
  then have "stats = [''-12.500'', ''-31.250'', ''250.125'', ''104.000'']"
    using ds by (simp add: demo_dock_simple)
  then show ?thesis by (simp add: r demo_fsub)
qed

theorem dock_variants_combinations_witness:
  "\<not> truthy (PyBool False) \<and>
   (\<exists>w'. dock_variants demo_env [27] ''out'' [] (PyBool False) demo_world = (Inr (), w') \<and>
     loaded_paths (trace w') = [''Chimera/4UN3.cgt.pdb'', ''3DNA/4UN3.cgt.pdb''] \<and>
     opened_paths (trace w') = [''out/cgt_Chimera.txt'', ''out/cgt_3DNA.txt''] \<and>
     files w' =
       [''out/cgt_Chimera.txt'' \<mapsto>
          unlines [''Initial DNA score:  -12.500'', ''Final DNA Score:  -31.250'',
                   ''Initial FA score:  250.125'', ''Final FA score:  104.000'',
                   ''Total variant time:    2.500''],
        ''out/cgt_3DNA.txt'' \<mapsto>
          unlines [''Initial DNA score:  -12.500'', ''Final DNA Score:  -31.250'',
                   ''Initial FA score:  250.125'', ''Final FA score:  104.000'',
                   ''Total variant time:    2.500'']])"
proof -
  let ?T = "unlines (report demo_env [''-12.500'', ''-31.250'', ''250.125'', ''104.000''] ''2.500'')"
  have h: "\<not> truthy (PyBool False)" by (simp add: truthy_def)
  obtain w' where r: "dock_variants demo_env [27] ''out'' [] (PyBool False) demo_world = (Inr (), w')"
    using demo_dock_variants by blast
  have j: "os_path_join demo_env = posix_join" by (simp add: demo_env_def)
  note c = dock_variants_combinations [OF h r]
  have l0: "loaded_paths (trace w') = loaded_paths (trace demo_world) @
         concat (map (\<lambda>i. map (\<lambda>program. os_path_join demo_env
             [[], program, ''4UN3.'' @ projr (variant_of i :: string error + string) @ ''.pdb''])
           programs) [27])"
    using c by blast
  have o0: "opened_paths (trace w') = opened_paths (trace demo_world) @
         concat (map (\<lambda>i. map (\<lambda>program. os_path_join demo_env
             [''out'', projr (variant_of i :: string error + string) @ ''_'' @ program @ ''.txt''])
           programs) [27])"
    using c by blast
  have cs: "combinations (map (\<lambda>i. projr (variant_of i :: string error + string)) [27]) =
      [(''cgt'', ''Chimera''), (''cgt'', ''3DNA'')]"
    by (simp add: combinations_def programs_def demo_variant_27)
  from c obtain texts where
    n: "length texts = 2 * length [27 :: int]"
    and a: "list_all2 (\<lambda>vp text. scored_report demo_env (pdb_path_of demo_env [] vp) text)
           (combinations (map (\<lambda>i. projr (variant_of i :: string error + string)) [27])) texts"
    and f: "files w' = foldl append_file (files demo_world)
           (zip (map (result_path_of demo_env ''out'')
                  (combinations (map (\<lambda>i. projr (variant_of i :: string error + string)) [27])))
              texts)"
    by blast
  from a obtain t1 t2 where ts: "texts = [t1, t2]"
    and s1: "scored_report demo_env (pdb_path_of demo_env [] (''cgt'', ''Chimera'')) t1"
    and s2: "scored_report demo_env (pdb_path_of demo_env [] (''cgt'', ''3DNA'')) t2"
    unfolding cs by (auto simp: list_all2_Cons1)
  have t12: "t1 = ?T" "t2 = ?T"
    using demo_scored_report [OF s1] demo_scored_report [OF s2] by simp_all
  have l: "loaded_paths (trace w') = [''Chimera/4UN3.cgt.pdb'', ''3DNA/4UN3.cgt.pdb'']"
    unfolding l0 by (simp add: programs_def demo_variant_27 j posix_join_def posix_join2_def demo_world_def
        loaded_paths_Nil)
  have o: "opened_paths (trace w') = [''out/cgt_Chimera.txt'', ''out/cgt_3DNA.txt'']"
    unfolding o0 by (simp add: programs_def demo_variant_27 j posix_join_def posix_join2_def demo_world_def
        opened_paths_Nil)
  have T: "?T = unlines [''Initial DNA score:  -12.500'', ''Final DNA Score:  -31.250'',
                   ''Initial FA score:  250.125'', ''Final FA score:  104.000'',
                   ''Total variant time:    2.500'']"
    by (simp add: report_def fmt_8_3f_def demo_fixed3 eval_nat_numeral)
  have q: "result_path_of demo_env ''out'' (''cgt'', ''Chimera'') = ''out/cgt_Chimera.txt''"
    "result_path_of demo_env ''out'' (''cgt'', ''3DNA'') = ''out/cgt_3DNA.txt''"
    by (simp_all add: result_path_of_def j posix_join_def posix_join2_def)
  have "files w' = [''out/cgt_Chimera.txt'' \<mapsto> ?T, ''out/cgt_3DNA.txt'' \<mapsto> ?T]"
    unfolding f cs ts t12 by (simp add: q append_file_def demo_world_def)
  then show ?thesis using h r l o unfolding T by blast
qed

section \<open>What the flag selects\<close>





















end
